theory Spec2Isabelle
  imports Complex_Main "HOL-Library.Sublist" "HOL-Library.Char_ord" "HOL-Library.List_Lexorder"
    "HOL-Library.Product_Lexorder"
begin

section \<open>Python values the program handles\<close>

text \<open>
  Exceptions are values: a function of the source that may raise returns
  \<open>py_error + 'a\<close>, with \<open>Inl\<close> for the exception that leaves the function.
\<close>

datatype py_error =
    ValueError | AttributeError | TypeError | KeyError | IndexError
  | ZeroDivisionError | FileNotFoundError | JSONDecodeError | RequestException

text \<open>
  A Python \<open>str\<close> is modelled as a \<open>string\<close> whose characters are the code points
  below 256. \<open>str.strip()\<close> removes the code points for which \<open>str.isspace()\<close> holds
  (9 to 13, 28 to 32, 133 and 160 in this range); \<open>str.lower()\<close> maps \<open>A\<close> to \<open>Z\<close> and
  the upper-case letters of Latin-1 (192 to 222 except 215) to their lower-case forms.
\<close>

definition is_space :: "char \<Rightarrow> bool" where
  "is_space c = (let n = (of_char c :: nat) in
     (9 \<le> n \<and> n \<le> 13) \<or> (28 \<le> n \<and> n \<le> 32) \<or> n = 133 \<or> n = 160)"

definition lower_char :: "char \<Rightarrow> char" where
  "lower_char c = (let n = (of_char c :: nat) in
     if (65 \<le> n \<and> n \<le> 90) \<or> (192 \<le> n \<and> n \<le> 222 \<and> n \<noteq> 215)
     then char_of (n + 32) else c)"

definition lower :: "string \<Rightarrow> string" where
  "lower s = map lower_char s"

definition strip :: "string \<Rightarrow> string" where
  "strip s = rev (dropWhile is_space (rev (dropWhile is_space s)))"

text \<open>\<open>sub in s\<close> on strings: \<open>sub\<close> occurs in \<open>s\<close> as a contiguous block.\<close>

fun str_in :: "string \<Rightarrow> string \<Rightarrow> bool" where
  "str_in sub [] = (sub = [])"
| "str_in sub (c # cs) = (prefix sub (c # cs) \<or> str_in sub cs)"

text \<open>\<open>s.split(sep)\<close> for a one-character separator, and \<open>sep.join(parts)\<close>.\<close>

fun split_on :: "char \<Rightarrow> string \<Rightarrow> string list" where
  "split_on sep [] = [[]]"
| "split_on sep (c # cs) =
     (if c = sep then [] # split_on sep cs
      else (case split_on sep cs of [] \<Rightarrow> [[c]] | p # ps \<Rightarrow> (c # p) # ps))"

fun join :: "string \<Rightarrow> string list \<Rightarrow> string" where
  "join sep [] = []"
| "join sep [p] = p"
| "join sep (p # q # ps) = p @ sep @ join sep (q # ps)"

text \<open>The slice \<open>xs[-n:]\<close>: the last \<open>n\<close> elements, the whole list when it is shorter.\<close>

definition last_n :: "nat \<Rightarrow> 'a list \<Rightarrow> 'a list" where
  "last_n n xs = drop (length xs - n) xs"

text \<open>\<open>s.partition(c)[0]\<close>, \<open>s.partition(c)[2]\<close> and \<open>s.rpartition(c)[2]\<close>.\<close>

definition before_first :: "char \<Rightarrow> string \<Rightarrow> string" where
  "before_first c s = takeWhile (\<lambda>x. x \<noteq> c) s"

definition after_first :: "char \<Rightarrow> string \<Rightarrow> string" where
  "after_first c s = drop 1 (dropWhile (\<lambda>x. x \<noteq> c) s)"

definition after_last :: "char \<Rightarrow> string \<Rightarrow> string" where
  "after_last c s = rev (takeWhile (\<lambda>x. x \<noteq> c) (rev s))"

section \<open>The standard library's URL parser, as far as the host name\<close>

text \<open>
  \<open>urlparse(s).hostname\<close> of \<open>urllib.parse\<close> (CPython 3.12): \<open>urlsplit\<close> drops leading
  C0 control characters and spaces, removes tab, carriage return and line feed, splits a
  scheme off, and takes as network location what follows \<open>//\<close> up to the first of
  \<open>/\<close>, \<open>?\<close> and \<open>#\<close>. It raises \<open>ValueError\<close> on unbalanced or ill-formed brackets.
  Whether the text between brackets is an IPv6 address is decided by the \<open>ipaddress\<close>
  module; that verdict is the parameter \<open>ipv6_ok\<close>. The check of the network location
  under NFKC normalisation never raises for code points below 256 and is left out.
\<close>

definition lstrip_c0 :: "string \<Rightarrow> string" where
  "lstrip_c0 s = dropWhile (\<lambda>c. (of_char c :: nat) \<le> 32) s"

definition remove_unsafe :: "string \<Rightarrow> string" where
  "remove_unsafe s = filter (\<lambda>c. (of_char c :: nat) \<notin> {9, 10, 13}) s"

definition is_ascii_alpha :: "char \<Rightarrow> bool" where
  "is_ascii_alpha c = (let n = (of_char c :: nat) in
     (65 \<le> n \<and> n \<le> 90) \<or> (97 \<le> n \<and> n \<le> 122))"

definition is_digit :: "char \<Rightarrow> bool" where
  "is_digit c = (let n = (of_char c :: nat) in 48 \<le> n \<and> n \<le> 57)"

definition is_hex_digit :: "char \<Rightarrow> bool" where
  "is_hex_digit c = (let n = (of_char c :: nat) in
     (48 \<le> n \<and> n \<le> 57) \<or> (65 \<le> n \<and> n \<le> 70) \<or> (97 \<le> n \<and> n \<le> 102))"

definition scheme_char :: "char \<Rightarrow> bool" where
  "scheme_char c = (is_ascii_alpha c \<or> is_digit c \<or> c \<in> {CHR ''+'', CHR ''-'', CHR ''.''})"

text \<open>
  The scheme: when the first \<open>:\<close> is not at position 0, the URL starts with an ASCII
  letter and everything before the \<open>:\<close> is a scheme character, the URL continues after
  the \<open>:\<close>.
\<close>

definition drop_scheme :: "string \<Rightarrow> string" where
  "drop_scheme url =
     (if CHR '':'' \<in> set url
      then (let pre = before_first CHR '':'' url in
        if pre \<noteq> [] \<and> is_ascii_alpha (hd url) \<and> list_all scheme_char pre
        then after_first CHR '':'' url else url)
      else url)"

definition splitnetloc :: "string \<Rightarrow> string" where
  "splitnetloc url = takeWhile (\<lambda>c. c \<notin> {CHR ''/'', CHR ''?'', CHR ''#''}) (drop 2 url)"

text \<open>The regular expression \<open>\Av[a-fA-F0-9]+\..+\Z\<close> of \<open>_check_bracketed_host\<close>.\<close>

definition ipvfuture_ok :: "string \<Rightarrow> bool" where
  "ipvfuture_ok h =
     (case h of [] \<Rightarrow> False
      | c # cs \<Rightarrow> c = CHR ''v'' \<and>
          (let hex = takeWhile is_hex_digit cs; rest = dropWhile is_hex_digit cs
           in hex \<noteq> [] \<and> (case rest of [] \<Rightarrow> False | d # ds \<Rightarrow> d = CHR ''.'' \<and> ds \<noteq> [])))"

definition check_bracketed_host :: "(string \<Rightarrow> bool) \<Rightarrow> string \<Rightarrow> bool" where
  "check_bracketed_host ipv6_ok hostname =
     (if prefix ''v'' hostname then ipvfuture_ok hostname else ipv6_ok hostname)"

definition check_bracketed_netloc :: "(string \<Rightarrow> bool) \<Rightarrow> string \<Rightarrow> bool" where
  "check_bracketed_netloc ipv6_ok netloc =
     (let hostname_and_port = after_last CHR ''@'' netloc in
      if CHR ''['' \<in> set hostname_and_port
      then (let before_bracket = before_first CHR ''['' hostname_and_port;
                bracketed = after_first CHR ''['' hostname_and_port;
                hostname = before_first CHR '']'' bracketed;
                port = after_first CHR '']'' bracketed
            in if before_bracket \<noteq> [] then False
               else if port \<noteq> [] \<and> \<not> prefix '':'' port then False
               else check_bracketed_host ipv6_ok hostname)
      else check_bracketed_host ipv6_ok (before_first CHR '':'' hostname_and_port))"

definition urlsplit_netloc :: "(string \<Rightarrow> bool) \<Rightarrow> string \<Rightarrow> py_error + string" where
  "urlsplit_netloc ipv6_ok url0 =
     (let url = drop_scheme (remove_unsafe (lstrip_c0 url0)) in
      if take 2 url = ''//''
      then (let netloc = splitnetloc url in
        if (CHR ''['' \<in> set netloc \<and> CHR '']'' \<notin> set netloc) \<or>
           (CHR '']'' \<in> set netloc \<and> CHR ''['' \<notin> set netloc)
        then Inl ValueError
        else if CHR ''['' \<in> set netloc \<and> CHR '']'' \<in> set netloc \<and>
                \<not> check_bracketed_netloc ipv6_ok netloc
        then Inl ValueError
        else Inr netloc)
      else Inr [])"

text \<open>The property \<open>hostname\<close> of the parse result; \<open>None\<close> when there is no host.\<close>

definition hostname_of :: "string \<Rightarrow> string option" where
  "hostname_of netloc =
     (let hostinfo = after_last CHR ''@'' netloc;
          hostname = (if CHR ''['' \<in> set hostinfo
                      then before_first CHR '']'' (after_first CHR ''['' hostinfo)
                      else before_first CHR '':'' hostinfo)
      in if hostname = [] then None
         else Some (lower (before_first CHR ''%'' hostname) @ dropWhile (\<lambda>x. x \<noteq> CHR ''%'') hostname))"

definition urlparse_hostname :: "(string \<Rightarrow> bool) \<Rightarrow> string \<Rightarrow> py_error + string option" where
  "urlparse_hostname ipv6_ok s =
     (case urlsplit_netloc ipv6_ok s of Inl e \<Rightarrow> Inl e | Inr netloc \<Rightarrow> Inr (hostname_of netloc))"

section \<open>parser.py: normalize_domain\<close>

definition MULTIPART_TLDS :: "string list" where
  "MULTIPART_TLDS = [''co.uk'', ''org.uk'', ''ac.uk'', ''gov.uk'', ''com.au'', ''co.jp'', ''com.br'']"

text \<open>\<open>re.sub(r"^(www\.|m\.)", "", host)\<close>: one leading \<open>www.\<close> or \<open>m.\<close> is removed.\<close>

definition strip_prefixes :: "string \<Rightarrow> string" where
  "strip_prefixes host =
     (if prefix ''www.'' host then drop 4 host
      else if prefix ''m.'' host then drop 2 host
      else host)"

text \<open>Lines 29 to 42: the labels of the host and the suffix table.\<close>

definition root_of_host :: "string \<Rightarrow> string" where
  "root_of_host host =
     (let parts = split_on CHR ''.'' host in
      if length parts < 2 then host
      else (let last_two = join ''.'' (last_n 2 parts);
                last_three = (if length parts \<ge> 3 then join ''.'' (last_n 3 parts) else [])
            in if last_two \<in> set MULTIPART_TLDS \<and> length parts \<ge> 3
               then join ''.'' (last_n 3 parts)
               else if last_three \<in> set MULTIPART_TLDS \<and> length parts \<ge> 4
               then join ''.'' (last_n 4 parts)
               else last_two))"

definition normalize_domain :: "(string \<Rightarrow> bool) \<Rightarrow> string \<Rightarrow> py_error + string" where
  "normalize_domain ipv6_ok raw =
     (if raw = [] then Inr []
      else (let s = lower (strip raw) in
        if CHR ''@'' \<in> set s \<and> \<not> str_in ''://'' s then Inr []
        else (let s' = (if \<not> str_in ''://'' s then ''https://'' @ s else s) in
          case urlparse_hostname ipv6_ok s' of
            Inl e \<Rightarrow> Inl e
          | Inr h \<Rightarrow>
              (let host = (case h of None \<Rightarrow> [] | Some x \<Rightarrow> x) in
               if host = [] then Inr []
               else Inr (root_of_host (strip_prefixes host))))))"

section \<open>JSON values and the dynamic operations applied to them\<close>

text \<open>
  What \<open>json.loads\<close> returns. A dictionary keeps its insertion order, so it is an
  association list (keys are looked up from the front). JSON numbers are integers here;
  the program never computes with a number of the export or of a response except through
  \<open>int\<close>.
\<close>

datatype json =
    JNull | JBool bool | JNum int | JStr string | JList "json list" | JDict "(string \<times> json) list"

text \<open>Truth value of an object in \<open>if x\<close>, \<open>not x\<close> and \<open>x or y\<close>.\<close>

fun truthy :: "json \<Rightarrow> bool" where
  "truthy JNull = False"
| "truthy (JBool b) = b"
| "truthy (JNum n) = (n \<noteq> 0)"
| "truthy (JStr s) = (s \<noteq> [])"
| "truthy (JList xs) = (xs \<noteq> [])"
| "truthy (JDict kvs) = (kvs \<noteq> [])"

definition py_or :: "json \<Rightarrow> json \<Rightarrow> json" where
  "py_or x y = (if truthy x then x else y)"

text \<open>\<open>x.get(key, default)\<close>: only a dictionary has the method.\<close>

fun py_get :: "json \<Rightarrow> string \<Rightarrow> json \<Rightarrow> py_error + json" where
  "py_get (JDict kvs) k d = Inr (case map_of kvs k of None \<Rightarrow> d | Some v \<Rightarrow> v)"
| "py_get _ k d = Inl AttributeError"

text \<open>\<open>for x in v\<close>: a dictionary yields its keys, a string its characters.\<close>

fun py_iter :: "json \<Rightarrow> py_error + json list" where
  "py_iter (JList xs) = Inr xs"
| "py_iter (JDict kvs) = Inr (map (\<lambda>kv. JStr (fst kv)) kvs)"
| "py_iter (JStr s) = Inr (map (\<lambda>c. JStr [c]) s)"
| "py_iter _ = Inl TypeError"

text \<open>\<open>k in v\<close> for a string \<open>k\<close>.\<close>

fun py_contains :: "json \<Rightarrow> string \<Rightarrow> py_error + bool" where
  "py_contains (JDict kvs) k = Inr (k \<in> set (map fst kvs))"
| "py_contains (JList xs) k = Inr (JStr k \<in> set xs)"
| "py_contains (JStr s) k = Inr (str_in k s)"
| "py_contains _ k = Inl TypeError"

text \<open>\<open>v[k]\<close> for a string \<open>k\<close>, and \<open>v[0]\<close>.\<close>

fun py_getitem :: "json \<Rightarrow> string \<Rightarrow> py_error + json" where
  "py_getitem (JDict kvs) k = (case map_of kvs k of None \<Rightarrow> Inl KeyError | Some v \<Rightarrow> Inr v)"
| "py_getitem _ k = Inl TypeError"

fun py_first :: "json \<Rightarrow> py_error + json" where
  "py_first (JList xs) = (case xs of [] \<Rightarrow> Inl IndexError | x # _ \<Rightarrow> Inr x)"
| "py_first (JStr s) = (case s of [] \<Rightarrow> Inl IndexError | c # _ \<Rightarrow> Inr (JStr [c]))"
| "py_first (JDict kvs) = Inl KeyError"
| "py_first _ = Inl TypeError"

text \<open>\<open>d[k] = v\<close> on a dictionary: the value is replaced in place, a new key is appended.\<close>

fun dict_set :: "(string \<times> json) list \<Rightarrow> string \<Rightarrow> json \<Rightarrow> (string \<times> json) list" where
  "dict_set [] k v = [(k, v)]"
| "dict_set ((k', v') # kvs) k v =
     (if k' = k then (k, v) # kvs else (k', v') # dict_set kvs k v)"

fun py_setitem :: "json \<Rightarrow> string \<Rightarrow> json \<Rightarrow> py_error + json" where
  "py_setitem (JDict kvs) k v = Inr (JDict (dict_set kvs k v))"
| "py_setitem _ k v = Inl TypeError"

section \<open>parser.py: extract_domains\<close>

text \<open>
  \<open>normalize_domain(raw)\<close> as it is called on a value of the export: \<open>not raw\<close> holds
  for every false value, and \<open>raw.strip()\<close> exists on a string only.
\<close>

definition normalize_domain_value :: "(string \<Rightarrow> bool) \<Rightarrow> json \<Rightarrow> py_error + string" where
  "normalize_domain_value ipv6_ok raw =
     (if \<not> truthy raw then Inr []
      else (case raw of JStr s \<Rightarrow> normalize_domain ipv6_ok s | _ \<Rightarrow> Inl AttributeError))"

text \<open>The inner loop over \<open>uris\<close>; the state is \<open>(seen, ordered)\<close>.\<close>

fun uris_loop ::
  "(string \<Rightarrow> bool) \<Rightarrow> json list \<Rightarrow> string set \<times> string list \<Rightarrow> py_error + string set \<times> string list"
where
  "uris_loop ipv6_ok [] st = Inr st"
| "uris_loop ipv6_ok (u # us) (seen, ordered) =
     (case py_get (py_or u (JDict [])) ''uri'' (JStr []) of
        Inl e \<Rightarrow> Inl e
      | Inr raw \<Rightarrow>
          (case normalize_domain_value ipv6_ok raw of
             Inl e \<Rightarrow> Inl e
           | Inr dom' \<Rightarrow>
               if dom' \<noteq> [] \<and> dom' \<notin> seen
               then uris_loop ipv6_ok us (insert dom' seen, ordered @ [dom'])
               else uris_loop ipv6_ok us (seen, ordered)))"

text \<open>The outer loop over \<open>items\<close>.\<close>

fun items_loop ::
  "(string \<Rightarrow> bool) \<Rightarrow> json list \<Rightarrow> string set \<times> string list \<Rightarrow> py_error + string set \<times> string list"
where
  "items_loop ipv6_ok [] st = Inr st"
| "items_loop ipv6_ok (it # its) st =
     (case py_get it ''login'' (JDict []) of
        Inl e \<Rightarrow> Inl e
      | Inr l \<Rightarrow>
          (case py_get (py_or l (JDict [])) ''uris'' JNull of
             Inl e \<Rightarrow> Inl e
           | Inr us \<Rightarrow>
               (case py_iter (py_or us (JList [])) of
                  Inl e \<Rightarrow> Inl e
                | Inr ulist \<Rightarrow>
                    (case uris_loop ipv6_ok ulist st of
                       Inl e \<Rightarrow> Inl e
                     | Inr st' \<Rightarrow> items_loop ipv6_ok its st'))))"

text \<open>
  \<open>extract_domains\<close>: the argument is what opening, reading and parsing the export gave,
  an exception (\<open>FileNotFoundError\<close>, \<open>JSONDecodeError\<close>) or the parsed value.
\<close>

definition extract_domains :: "(string \<Rightarrow> bool) \<Rightarrow> py_error + json \<Rightarrow> py_error + string list" where
  "extract_domains ipv6_ok file =
     (case file of
        Inl e \<Rightarrow> Inl e
      | Inr data \<Rightarrow>
          (case py_get data ''items'' (JList []) of
             Inl e \<Rightarrow> Inl e
           | Inr items \<Rightarrow>
               (case py_iter items of
                  Inl e \<Rightarrow> Inl e
                | Inr its \<Rightarrow>
                    (case items_loop ipv6_ok its ({}, []) of
                       Inl e \<Rightarrow> Inl e
                     | Inr st \<Rightarrow> Inr (snd st)))))"

text \<open>An export of the documented shape, from the raw URI strings of each item.\<close>

definition uri_entry :: "string \<Rightarrow> json" where
  "uri_entry u = JDict [(''uri'', JStr u)]"

definition item_of :: "string list \<Rightarrow> json" where
  "item_of us = JDict [(''login'', JDict [(''uris'', JList (map uri_entry us))])]"

definition vault_of :: "string list list \<Rightarrow> json" where
  "vault_of uss = JDict [(''items'', JList (map item_of uss))]"

text \<open>The first occurrence of every element, in order.\<close>

definition first_seen :: "'a list \<Rightarrow> 'a list" where
  "first_seen xs = rev (remdups (rev xs))"

section \<open>domain_normalizer.py and the pipeline of main.py\<close>

text \<open>
  \<open>tldextract.extract\<close> is a third-party function over the Public Suffix List; it is
  the parameter \<open>extract\<close>. Its result is the named tuple
  \<open>(subdomain, domain, suffix)\<close>.
\<close>

type_synonym extract_result = "string \<times> string \<times> string"

definition normalize :: "(string \<Rightarrow> extract_result) \<Rightarrow> string \<Rightarrow> string" where
  "normalize extract url =
     (if url = [] then []
      else (case extract url of (subdomain, domain, suffix') \<Rightarrow>
        if domain = [] \<or> suffix' = [] then lower url
        else lower (domain @ ''.'' @ suffix')))"

text \<open>Step 2 of \<open>main\<close>: the loop that fills \<open>normalized_domains\<close>.\<close>

fun normalize_loop :: "(string \<Rightarrow> extract_result) \<Rightarrow> string list \<Rightarrow> string list \<Rightarrow> string list" where
  "normalize_loop extract [] normalized_domains = normalized_domains"
| "normalize_loop extract (d # ds) normalized_domains =
     (let normalized = normalize extract d in
      if normalized \<noteq> [] \<and> normalized \<notin> set normalized_domains
      then normalize_loop extract ds (normalized_domains @ [normalized])
      else normalize_loop extract ds normalized_domains)"

text \<open>Steps 1 and 2 of \<open>main\<close> on one raw string: the second function on the first's result.\<close>

definition pipeline_domain ::
  "(string \<Rightarrow> bool) \<Rightarrow> (string \<Rightarrow> extract_result) \<Rightarrow> string \<Rightarrow> py_error + string" where
  "pipeline_domain ipv6_ok extract raw =
     (case normalize_domain ipv6_ok raw of Inl e \<Rightarrow> Inl e | Inr dom' \<Rightarrow> Inr (normalize extract dom'))"

section \<open>api_client.py\<close>

text \<open>
  The world \<open>lookup_tosdr\<close> acts on: the cache file (absent, unreadable or not JSON, or
  holding a JSON value), the queries sent to the search endpoint, and the number of
  rate-limit sleeps. Writing the cache file is taken to succeed.
\<close>

record world =
  cache_file :: "(py_error + json) option"
  requests_made :: "string list"
  sleeps :: nat

text \<open>
  What \<open>requests.get\<close> does for a query: it raises a \<open>RequestException\<close> (connection
  error, timeout), or returns a response with its \<open>ok\<close> flag and what \<open>resp.json()\<close>
  gives, a value or the exception it raises.
\<close>

datatype http_result = Raises | Response bool "py_error + json"

definition load_cache :: "world \<Rightarrow> json" where
  "load_cache w =
     (case cache_file w of
        None \<Rightarrow> JDict []
      | Some (Inl e) \<Rightarrow> JDict []
      | Some (Inr j) \<Rightarrow> j)"

definition save_cache :: "json \<Rightarrow> world \<Rightarrow> world" where
  "save_cache cache w = w\<lparr>cache_file := Some (Inr cache)\<rparr>"

text \<open>\<open>any(domain in url for url in urls)\<close>, stopping at the first hit.\<close>

fun any_url :: "json list \<Rightarrow> string \<Rightarrow> py_error + bool" where
  "any_url [] d = Inr False"
| "any_url (url # urls) d =
     (case py_contains url d of
        Inl e \<Rightarrow> Inl e
      | Inr b \<Rightarrow> if b then Inr True else any_url urls d)"

text \<open>The loop of \<open>_best_match\<close> over the services; \<open>None\<close> when it ends without a hit.\<close>

fun match_loop :: "json list \<Rightarrow> string \<Rightarrow> py_error + json option" where
  "match_loop [] d = Inr None"
| "match_loop (service # services) d =
     (case service of
        JDict kvs \<Rightarrow>
          (case py_get service ''urls'' (JList []) of
             Inl e \<Rightarrow> Inl e
           | Inr urls \<Rightarrow>
               (case py_iter urls of
                  Inl e \<Rightarrow> Inl e
                | Inr us \<Rightarrow>
                    (case any_url us d of
                       Inl e \<Rightarrow> Inl e
                     | Inr b \<Rightarrow> if b then Inr (Some service) else match_loop services d)))
      | _ \<Rightarrow> match_loop services d)"

definition best_match :: "json \<Rightarrow> string \<Rightarrow> py_error + json option" where
  "best_match search_json d =
     (if \<not> truthy search_json then Inr None
      else (case py_contains search_json ''parameters'' of
        Inl e \<Rightarrow> Inl e
      | Inr has \<Rightarrow>
          if \<not> has then Inr None
          else (case py_getitem search_json ''parameters'' of
            Inl e \<Rightarrow> Inl e
          | Inr params \<Rightarrow>
              (case py_get params ''services'' (JList []) of
                 Inl e \<Rightarrow> Inl e
               | Inr services \<Rightarrow>
                   if \<not> truthy services then Inr None
                   else (case py_iter services of
                     Inl e \<Rightarrow> Inl e
                   | Inr svs \<Rightarrow>
                       (case match_loop svs d of
                          Inl e \<Rightarrow> Inl e
                        | Inr (Some service) \<Rightarrow> Inr (Some service)
                        | Inr None \<Rightarrow>
                            if truthy services
                            then (case py_first services of
                                    Inl e \<Rightarrow> Inl e | Inr service \<Rightarrow> Inr (Some service))
                            else Inr None))))))"

text \<open>
  \<open>int(x)\<close>: of a string, after stripping the white space that \<open>int\<close> accepts (code
  points 9 to 13, 32, 133 and 160; not 28 to 31), an optional sign and decimal digits
  that single underscores may separate.
\<close>

definition int_space :: "char \<Rightarrow> bool" where
  "int_space c = (let n = (of_char c :: nat) in
     (9 \<le> n \<and> n \<le> 13) \<or> n = 32 \<or> n = 133 \<or> n = 160)"

fun digits_ok :: "string \<Rightarrow> bool" where
  "digits_ok [] = False"
| "digits_ok [c] = is_digit c"
| "digits_ok (c # d # cs) =
     (is_digit c \<and> (if d = CHR ''_'' then digits_ok cs else digits_ok (d # cs)))"

definition int_of_digits :: "string \<Rightarrow> int" where
  "int_of_digits s = foldl (\<lambda>a c. 10 * a + (int (of_char c) - 48)) 0 (filter is_digit s)"

definition int_of_str :: "string \<Rightarrow> py_error + int" where
  "int_of_str s =
     (let t = rev (dropWhile int_space (rev (dropWhile int_space s)));
          neg = prefix ''-'' t;
          body = (if prefix ''-'' t \<or> prefix ''+'' t then drop 1 t else t)
      in if digits_ok body then Inr (if neg then - int_of_digits body else int_of_digits body)
         else Inl ValueError)"

fun py_int :: "json \<Rightarrow> py_error + int" where
  "py_int (JNum n) = Inr n"
| "py_int (JBool b) = Inr (if b then 1 else 0)"
| "py_int (JStr s) = int_of_str s"
| "py_int _ = Inl TypeError"

definition default_record :: "string \<Rightarrow> json" where
  "default_record d =
     JDict [(''grade'', JStr ''Unknown''), (''service_id'', JNull), (''name'', JStr d)]"

definition grade_letters :: "json list" where
  "grade_letters = map (\<lambda>c. JStr [c]) ''ABCDE''"

text \<open>The record built from the service that \<open>_best_match\<close> chose.\<close>

definition record_of_service :: "json \<Rightarrow> string \<Rightarrow> py_error + json" where
  "record_of_service service d =
     (case py_get service ''name'' (JStr d) of
        Inl e \<Rightarrow> Inl e
      | Inr name \<Rightarrow>
          (case py_get service ''rating'' (JDict []) of
             Inl e \<Rightarrow> Inl e
           | Inr rating \<Rightarrow>
               (let grade = (case rating of
                               JDict kvs \<Rightarrow> (case map_of kvs ''letter'' of
                                               None \<Rightarrow> JStr ''Unknown'' | Some g \<Rightarrow> g)
                             | _ \<Rightarrow> JStr ''Unknown'')
                in case py_get service ''id'' JNull of
                     Inl e \<Rightarrow> Inl e
                   | Inr service_id \<Rightarrow>
                       (case (if truthy service_id
                              then (case py_int service_id of Inl e \<Rightarrow> Inl e | Inr n \<Rightarrow> Inr (JNum n))
                              else Inr service_id) of
                          Inl e \<Rightarrow> Inl e
                        | Inr sid \<Rightarrow>
                            Inr (JDict [(''grade'', if grade \<in> set grade_letters then grade
                                                   else JStr ''Unknown''),
                                        (''service_id'', sid),
                                        (''name'', name)])))))"

text \<open>The body of the \<open>try\<close> block: the value of \<open>out\<close> when it ends, or the exception.\<close>

definition try_search :: "http_result \<Rightarrow> string \<Rightarrow> py_error + json" where
  "try_search resp d =
     (case resp of
        Raises \<Rightarrow> Inl RequestException
      | Response ok body \<Rightarrow>
          if \<not> ok then Inr (default_record d)
          else (case body of
            Inl e \<Rightarrow> Inl e
          | Inr search_json \<Rightarrow>
              (case best_match search_json d of
                 Inl e \<Rightarrow> Inl e
               | Inr None \<Rightarrow> Inr (default_record d)
               | Inr (Some service) \<Rightarrow>
                   if truthy service then record_of_service service d
                   else Inr (default_record d))))"

text \<open>
  \<open>lookup_tosdr\<close>: \<open>net\<close> is the search endpoint. \<open>except requests.RequestException\<close>
  keeps the default record; every other exception leaves the function.
\<close>

definition lookup_tosdr :: "(string \<Rightarrow> http_result) \<Rightarrow> world \<Rightarrow> string \<Rightarrow> (py_error + json) \<times> world" where
  "lookup_tosdr net w d =
     (let cache = load_cache w in
      case py_contains cache d of
        Inl e \<Rightarrow> (Inl e, w)
      | Inr hit \<Rightarrow>
          if hit then (py_getitem cache d, w)
          else (let w1 = w\<lparr>requests_made := requests_made w @ [d]\<rparr> in
            case (case try_search (net d) d of
                    Inl e \<Rightarrow> if e = RequestException then Inr (default_record d) else Inl e
                  | Inr out \<Rightarrow> Inr out) of
              Inl e \<Rightarrow> (Inl e, w1)
            | Inr out \<Rightarrow>
                (case py_setitem cache d out of
                   Inl e \<Rightarrow> (Inl e, w1)
                 | Inr cache' \<Rightarrow>
                     (Inr out, (save_cache cache' w1)\<lparr>sleeps := sleeps w1 + 1\<rparr>))))"

section \<open>reporting.py: generate_markdown_report\<close>

text \<open>
  A row of \<open>domains_data\<close> is a dictionary from strings to arbitrary values
  (\<open>Dict[str, Any]\<close>): an association list of JSON values. The model computes every
  number and table of the report in the order the source does and leaves the rendering
  into text out; percentages are exact rationals where the source has floats. Writing
  the file is taken to succeed.
\<close>

type_synonym row = "(string \<times> json) list"

text \<open>\<open>d.get(key, default)\<close> on a row.\<close>

definition row_get :: "row \<Rightarrow> string \<Rightarrow> json \<Rightarrow> json" where
  "row_get d k dflt = (case map_of d k of None \<Rightarrow> dflt | Some v \<Rightarrow> v)"

text \<open>
  Python's \<open>==\<close> on JSON values: \<open>True\<close> equals \<open>1\<close> and \<open>False\<close> equals \<open>0\<close>, lists
  are equal element by element, dictionaries when they have the same keys with equal
  values, in any order.
\<close>

fun py_eq :: "json \<Rightarrow> json \<Rightarrow> bool" where
  "py_eq JNull b = (b = JNull)"
| "py_eq (JBool x) b =
     (case b of JBool y \<Rightarrow> x = y | JNum n \<Rightarrow> n = (if x then 1 else 0) | _ \<Rightarrow> False)"
| "py_eq (JNum m) b =
     (case b of JNum n \<Rightarrow> m = n | JBool y \<Rightarrow> m = (if y then 1 else 0) | _ \<Rightarrow> False)"
| "py_eq (JStr s) b = (b = JStr s)"
| "py_eq (JList xs) b = (case b of JList ys \<Rightarrow> list_all2 py_eq xs ys | _ \<Rightarrow> False)"
| "py_eq (JDict kvs) b =
     (case b of
        JDict kvs' \<Rightarrow>
          set (map fst kvs) = set (map fst kvs') \<and>
          list_all (\<lambda>kv. case map_of kvs' (fst kv) of
                            None \<Rightarrow> False | Some w \<Rightarrow> py_eq (snd kv) w) kvs
      | _ \<Rightarrow> False)"

text \<open>
  Python's \<open><\<close> on JSON values: numbers (booleans included) and strings are ordered
  among themselves, lists by their first unequal elements or by length; every other
  comparison raises \<open>TypeError\<close>.
\<close>

fun py_lt :: "json \<Rightarrow> json \<Rightarrow> py_error + bool" where
  "py_lt (JNum m) (JNum n) = Inr (m < n)"
| "py_lt (JNum m) (JBool y) = Inr (m < (if y then 1 else 0))"
| "py_lt (JBool x) (JNum n) = Inr ((if x then 1 else 0) < n)"
| "py_lt (JBool x) (JBool y) = Inr (\<not> x \<and> y)"
| "py_lt (JStr s) (JStr t) = Inr (s < t)"
| "py_lt (JList []) (JList []) = Inr False"
| "py_lt (JList []) (JList (y # ys)) = Inr True"
| "py_lt (JList (x # xs)) (JList []) = Inr False"
| "py_lt (JList (x # xs)) (JList (y # ys)) =
     (if py_eq x y then py_lt (JList xs) (JList ys) else py_lt x y)"
| "py_lt _ _ = Inl TypeError"

text \<open>
  \<open>a < b\<close> on the sort keys \<open>(index, name)\<close>: tuples are compared at their first
  unequal component.
\<close>

definition key_lt :: "nat \<times> json \<Rightarrow> nat \<times> json \<Rightarrow> py_error + bool" where
  "key_lt a b =
     (if fst a \<noteq> fst b then Inr (fst a < fst b)
      else if py_eq (snd a) (snd b) then Inr False
      else py_lt (snd a) (snd b))"

text \<open>
  \<open>sorted(xs, key=...)\<close> with the keys already computed. The sort compares keys in
  pairs and the \<open>TypeError\<close> of a comparison leaves it. The order of two keys that
  cannot be compared follows from no other comparison, so a list with such a pair makes
  the sort raise; a list without one is sorted stably.
\<close>

definition unordered :: "nat \<times> json \<Rightarrow> nat \<times> json \<Rightarrow> bool" where
  "unordered a b = (case key_lt a b of Inl e \<Rightarrow> True | Inr r \<Rightarrow> False)"

fun has_unordered_pair :: "(nat \<times> json) list \<Rightarrow> bool" where
  "has_unordered_pair [] = False"
| "has_unordered_pair (k # ks) = (list_ex (unordered k) ks \<or> has_unordered_pair ks)"

definition key_less :: "nat \<times> json \<Rightarrow> nat \<times> json \<Rightarrow> bool" where
  "key_less a b = (case key_lt a b of Inl e \<Rightarrow> False | Inr r \<Rightarrow> r)"

fun insert_keyed :: "(nat \<times> json) \<times> 'a \<Rightarrow> ((nat \<times> json) \<times> 'a) list \<Rightarrow> ((nat \<times> json) \<times> 'a) list" where
  "insert_keyed x [] = [x]"
| "insert_keyed x (y # ys) =
     (if key_less (fst y) (fst x) then y # insert_keyed x ys else x # y # ys)"

definition sorted_keyed :: "((nat \<times> json) \<times> 'a) list \<Rightarrow> py_error + ((nat \<times> json) \<times> 'a) list" where
  "sorted_keyed ks =
     (if has_unordered_pair (map fst ks) then Inl TypeError
      else Inr (foldr insert_keyed ks []))"

record md_report =
  total_services :: nat
  found_services :: nat
  unknown_services :: nat
  rated_percent :: rat
  unknown_percent :: rat
  key_findings :: "(string \<times> nat) list"
  distribution :: "(json \<times> nat \<times> rat) list"
  risky_services :: "row list"
  sorted_services :: "(row \<times> string) list"

text \<open>True division of two counts.\<close>

definition py_div :: "nat \<Rightarrow> nat \<Rightarrow> py_error + rat" where
  "py_div a b = (if b = 0 then Inl ZeroDivisionError else Inr (of_nat a / of_nat b))"

text \<open>\<open>xs.index(x)\<close>, which raises \<open>ValueError\<close> when \<open>x\<close> is not in the list.\<close>

fun index_of :: "'a list \<Rightarrow> 'a \<Rightarrow> py_error + nat" where
  "index_of [] x = Inl ValueError"
| "index_of (y # ys) x =
     (if y = x then Inr 0 else (case index_of ys x of Inl e \<Rightarrow> Inl e | Inr i \<Rightarrow> Inr (Suc i)))"

text \<open>The grades are strings; a value of another type equals none of them.\<close>

definition grade_order :: "json list" where
  "grade_order = map JStr [''A'', ''B'', ''C'', ''D'', ''E'', ''Unknown'']"

text \<open>The guarded sort keys: \<open>xs.index(x) if x in xs else 999\<close>.\<close>

definition index_or_999 :: "json list \<Rightarrow> json \<Rightarrow> nat" where
  "index_or_999 xs x = (case index_of xs x of Inl e \<Rightarrow> 999 | Inr i \<Rightarrow> i)"

text \<open>
  \<open>grade_counts[grade] = grade_counts.get(grade, 0) + 1\<close>, in insertion order. A list
  or a dictionary cannot be a key (\<open>TypeError: unhashable type\<close>); keys are found by
  \<open>==\<close>, and the key stored first stays.
\<close>

fun hashable :: "json \<Rightarrow> bool" where
  "hashable (JList xs) = False"
| "hashable (JDict kvs) = False"
| "hashable _ = True"

fun bump :: "(json \<times> nat) list \<Rightarrow> json \<Rightarrow> (json \<times> nat) list" where
  "bump [] g = [(g, 1)]"
| "bump ((g', n) # rest) g = (if py_eq g' g then (g', n + 1) # rest else (g', n) # bump rest g)"

fun count_grades :: "(json \<times> nat) list \<Rightarrow> row list \<Rightarrow> py_error + (json \<times> nat) list" where
  "count_grades counts [] = Inr counts"
| "count_grades counts (d # ds) =
     (let g = row_get d ''grade'' (JStr ''Unknown'') in
      if hashable g then count_grades (bump counts g) ds else Inl TypeError)"

text \<open>\<open>grade_counts.get(g, 0)\<close> for a grade letter \<open>g\<close>.\<close>

definition count_of :: "(json \<times> nat) list \<Rightarrow> string \<Rightarrow> nat" where
  "count_of counts g = (case map_of counts (JStr g) of None \<Rightarrow> 0 | Some n \<Rightarrow> n)"

text \<open>The unguarded keys of the complete table; \<open>sorted\<close> computes all of them first.\<close>

fun service_keys :: "row list \<Rightarrow> py_error + ((nat \<times> json) \<times> row) list" where
  "service_keys [] = Inr []"
| "service_keys (x # xs) =
     (case index_of grade_order (row_get x ''grade'' (JStr ''Unknown'')) of
        Inl e \<Rightarrow> Inl e
      | Inr i \<Rightarrow>
          (case service_keys xs of
             Inl e \<Rightarrow> Inl e
           | Inr ks \<Rightarrow> Inr (((i, row_get x ''name'' (JStr [])), x) # ks)))"

definition status_of :: "row \<Rightarrow> string" where
  "status_of d = (if row_get d ''grade'' JNull \<noteq> JStr ''Unknown'' then ''Found'' else ''Unknown'')"

definition generate_markdown_report :: "row list \<Rightarrow> py_error + md_report" where
  "generate_markdown_report domains_data =
     (let total = length domains_data;
          found = length (filter (\<lambda>d. row_get d ''grade'' JNull \<noteq> JStr ''Unknown'') domains_data);
          unknown = total - found
      in case count_grades [] domains_data of
           Inl e \<Rightarrow> Inl e
         | Inr grade_counts \<Rightarrow>
      (let sorted_grades = sort_key (\<lambda>x. index_or_999 grade_order (fst x)) grade_counts
       in case py_div found total of
           Inl e \<Rightarrow> Inl e
         | Inr rated \<Rightarrow>
             (case py_div unknown total of
                Inl e \<Rightarrow> Inl e
              | Inr unk \<Rightarrow>
                  (let findings = filter (\<lambda>p. 0 < snd p)
                         (map (\<lambda>g. (g, count_of grade_counts g)) [''E'', ''D'', ''A'', ''B'']);
                       dist = map (\<lambda>p. (fst p, snd p,
                                (if total > 0 then of_nat (snd p) / of_nat total * 100 else 0)))
                              sorted_grades;
                       risky = sort_key
                                 (\<lambda>x. index_or_999 [JStr ''E'', JStr ''D''] (row_get x ''grade'' (JStr [])))
                                 (filter (\<lambda>d. row_get d ''grade'' JNull \<in> {JStr ''E'', JStr ''D''})
                                    domains_data)
                   in case service_keys domains_data of
                        Inl e \<Rightarrow> Inl e
                      | Inr keyed \<Rightarrow>
                          (case sorted_keyed keyed of
                             Inl e \<Rightarrow> Inl e
                           | Inr sorted_rows \<Rightarrow>
                               Inr \<lparr>total_services = total,
                                    found_services = found,
                                    unknown_services = unknown,
                                    rated_percent = rated * 100,
                                    unknown_percent = unk * 100,
                                    key_findings = findings,
                                    distribution = dist,
                                    risky_services = risky,
                                    sorted_services =
                                      map (\<lambda>k. (snd k, status_of (snd k))) sorted_rows\<rparr>)))))"

section \<open>Fixed parameters for the closed examples\<close>

text \<open>
  A verdict of the \<open>ipaddress\<close> module that accepts no bracketed host (no example below
  has a bracket), and an extractor that answers as \<open>tldextract\<close> does on a host under
  \<open>example.com\<close>.
\<close>

definition ipv6_reject :: "string \<Rightarrow> bool" where
  "ipv6_reject h = False"

definition extract_example :: "string \<Rightarrow> extract_result" where
  "extract_example url = ([], ''example'', ''com'')"

definition empty_world :: world where
  "empty_world = \<lparr>cache_file = None, requests_made = [], sleeps = 0\<rparr>"

text \<open>
  Ordinary host names: a non-empty string of lower-case ASCII letters, digits, hyphens
  and dots.
\<close>

definition host_char :: "char \<Rightarrow> bool" where
  "host_char c = (let n = (of_char c :: nat) in
     (97 \<le> n \<and> n \<le> 122) \<or> (48 \<le> n \<and> n \<le> 57) \<or> n = 45 \<or> n = 46)"

definition plain_host :: "string \<Rightarrow> bool" where
  "plain_host s = (s \<noteq> [] \<and> list_all host_char s)"

section \<open>Vocabulary for the statements about extract_domains\<close>

text \<open>
  \<open>normalize_domain\<close> on each raw string in turn, stopping at the first exception; and
  the step that appends a non-empty domain not seen before.
\<close>

fun normalize_each :: "(string \<Rightarrow> bool) \<Rightarrow> string list \<Rightarrow> py_error + string list" where
  "normalize_each ipv6_ok [] = Inr []"
| "normalize_each ipv6_ok (raw # raws) =
     (case normalize_domain ipv6_ok raw of
        Inl e \<Rightarrow> Inl e
      | Inr d \<Rightarrow>
          (case normalize_each ipv6_ok raws of Inl e \<Rightarrow> Inl e | Inr ds \<Rightarrow> Inr (d # ds)))"

definition keep_new :: "string list \<Rightarrow> string \<Rightarrow> string list" where
  "keep_new acc d = (if d \<noteq> [] \<and> d \<notin> set acc then acc @ [d] else acc)"

text \<open>
  Entries that carry no URI: a URI entry that is false (\<open>null\<close>, \<open>{}\<close>), or a
  dictionary without the key \<open>uri\<close> or with a false value under it; an item without
  \<open>login\<close>, with a false \<open>login\<close>, or whose \<open>login\<close> is a dictionary without \<open>uris\<close>,
  with false \<open>uris\<close>, or with a list of such URI entries.
\<close>

definition blank_uri :: "json \<Rightarrow> bool" where
  "blank_uri u =
     (\<not> truthy u \<or>
      (case u of
         JDict kvs \<Rightarrow> (case map_of kvs ''uri'' of None \<Rightarrow> True | Some raw \<Rightarrow> \<not> truthy raw)
       | _ \<Rightarrow> False))"

definition blank_uris :: "json \<Rightarrow> bool" where
  "blank_uris us =
     (\<not> truthy us \<or> (case us of JList ul \<Rightarrow> list_all blank_uri ul | _ \<Rightarrow> False))"

definition blank_login :: "json \<Rightarrow> bool" where
  "blank_login l =
     (\<not> truthy l \<or>
      (case l of
         JDict kvs \<Rightarrow> (case map_of kvs ''uris'' of None \<Rightarrow> True | Some us \<Rightarrow> blank_uris us)
       | _ \<Rightarrow> False))"

definition blank_item :: "json \<Rightarrow> bool" where
  "blank_item it =
     (case it of
        JDict kvs \<Rightarrow> (case map_of kvs ''login'' of None \<Rightarrow> True | Some l \<Rightarrow> blank_login l)
      | _ \<Rightarrow> False)"

definition vault_items :: "json list \<Rightarrow> py_error + json" where
  "vault_items its = Inr (JDict [(''items'', JList its)])"

definition login_item :: "json list \<Rightarrow> json" where
  "login_item us = JDict [(''login'', JDict [(''uris'', JList us)])]"

section \<open>Search endpoints for the closed examples\<close>

text \<open>
  An endpoint that is down (every request raises), and one that answers every query
  with status 200 and the body \<open>{"parameters": {"services": ["x"]}}\<close>.
\<close>

definition net_down :: "string \<Rightarrow> http_result" where
  "net_down q = Raises"

definition net_bare_string :: "string \<Rightarrow> http_result" where
  "net_bare_string q =
     Response True (Inr (JDict [(''parameters'', JDict [(''services'', JList [JStr ''x''])])]))"

definition cached_world :: world where
  "cached_world =
     \<lparr>cache_file = Some (Inr (JDict [(''google.com'',
         JDict [(''grade'', JStr ''E''), (''service_id'', JNum 217), (''name'', JStr ''Google'')])])),
      requests_made = [], sleeps = 0\<rparr>"

section \<open>Strings: substrings, stripping and lower case\<close>

lemma str_in_sublist: "str_in sub s = sublist sub s"
  by (induction s) (auto simp: sublist_Cons_right)

lemma sublist_dropWhile: "sublist (dropWhile P s) s"
  by (metis suffix_dropWhile suffix_imp_sublist)

lemma sublist_strip: "sublist (strip s) s"
proof -
  have "prefix (rev (dropWhile is_space (rev (dropWhile is_space s)))) (dropWhile is_space s)"
    by (metis suffix_dropWhile suffix_to_prefix rev_rev_ident)
  then have "sublist (strip s) (dropWhile is_space s)"
    by (simp add: strip_def)
  then show ?thesis
    using sublist_dropWhile sublist_order.order_trans by blast
qed

lemma of_char_lower_char:
  "(of_char (lower_char c) :: nat) =
     (if (65 \<le> (of_char c :: nat) \<and> (of_char c :: nat) \<le> 90) \<or>
         (192 \<le> (of_char c :: nat) \<and> (of_char c :: nat) \<le> 222 \<and> (of_char c :: nat) \<noteq> 215)
      then of_char c + 32 else of_char c)"
  by (auto simp: lower_char_def Let_def of_char_of)

text \<open>No character below \<open>A\<close> is the lower-case form of another one.\<close>

lemma lower_char_fixed:
  assumes "(of_char d :: nat) < 65"
  shows "lower_char c = d \<longleftrightarrow> c = d"
proof
  assume h: "lower_char c = d"
  have "(of_char (lower_char c) :: nat) = of_char d" using h by simp
  then have "(of_char c :: nat) = of_char d"
    using assms by (auto simp: of_char_lower_char split: if_splits)
  then show "c = d" by simp
next
  assume "c = d"
  then show "lower_char c = d" using assms by (simp add: lower_char_def Let_def)
qed

lemma lower_char_colon [simp]: "lower_char c = CHR '':'' \<longleftrightarrow> c = CHR '':''"
  by (rule lower_char_fixed) simp

lemma lower_char_slash [simp]: "lower_char c = CHR ''/'' \<longleftrightarrow> c = CHR ''/''"
  by (rule lower_char_fixed) simp

lemma lower_char_at [simp]: "lower_char c = CHR ''@'' \<longleftrightarrow> c = CHR ''@''"
  by (rule lower_char_fixed) simp

lemma at_in_lower: "CHR ''@'' \<in> set s \<Longrightarrow> CHR ''@'' \<in> set (lower s)"
proof -
  assume "CHR ''@'' \<in> set s"
  then have "lower_char CHR ''@'' \<in> set (map lower_char s)" by (simp del: lower_char_at)
  then show ?thesis by (simp add: lower_def lower_char_def)
qed

lemma set_strip: "x \<in> set s \<Longrightarrow> \<not> is_space x \<Longrightarrow> x \<in> set (strip s)"
proof -
  assume a: "x \<in> set s" "\<not> is_space x"
  have k: "\<And>t. x \<in> set t \<Longrightarrow> x \<in> set (dropWhile is_space t)"
  proof -
    fix t assume "x \<in> set t"
    then show "x \<in> set (dropWhile is_space t)"
      using a(2) by (induction t) auto
  qed
  have "x \<in> set (dropWhile is_space (rev (dropWhile is_space s)))"
    using k[of "rev (dropWhile is_space s)"] k[OF a(1)] by simp
  then show ?thesis by (simp add: strip_def)
qed

lemma scheme_in_lower: "sublist ''://'' (lower s) \<Longrightarrow> sublist ''://'' s"
proof -
  assume "sublist ''://'' (lower s)"
  then obtain ps ss where e: "map lower_char s = ps @ ''://'' @ ss"
    by (auto simp: sublist_def lower_def)
  then obtain ps' m' where s: "s = ps' @ m'" and m: "map lower_char m' = ''://'' @ ss"
    by (auto simp: map_eq_append_conv)
  from m obtain zs where "m' = ''://'' @ zs"
    by (auto simp: map_eq_Cons_conv)
  then show ?thesis using s by (auto simp: sublist_def)
qed

section \<open>The e-mail heuristic\<close>

text \<open>
  Claim C4. For every string that contains \<open>@\<close> and has no scheme delimiter \<open>://\<close>,
  \<open>normalize_domain\<close> returns the empty string, whatever surrounds the \<open>@\<close>; the second
  normalizer of the pipeline keeps the empty string, so the pipeline returns it too.
\<close>

theorem email_heuristic:
  assumes "CHR ''@'' \<in> set raw" and "\<not> str_in ''://'' raw"
  shows "normalize_domain ipv6_ok raw = Inr [] \<and> pipeline_domain ipv6_ok extract raw = Inr []"
proof -
  have a: "CHR ''@'' \<in> set (lower (strip raw))"
    using assms(1) by (simp add: at_in_lower set_strip is_space_def)
  have "\<not> sublist ''://'' (lower (strip raw))"
    using assms(2) scheme_in_lower sublist_strip sublist_order.order_trans
    unfolding str_in_sublist by blast
  then have b: "\<not> str_in ''://'' (lower (strip raw))"
    unfolding str_in_sublist by assumption
  have "normalize_domain ipv6_ok raw = Inr []"
    using a b by (simp add: normalize_domain_def Let_def del: str_in.simps)
  then show ?thesis
    by (simp add: pipeline_domain_def normalize_def)
qed

text \<open>The example of the specification: \<open>normalize("user@example.com")\<close> is empty.\<close>

theorem email_heuristic_witness:
  "CHR ''@'' \<in> set ''user@example.com'' \<and> \<not> str_in ''://'' ''user@example.com'' \<and>
   normalize_domain ipv6_reject ''user@example.com'' = Inr [] \<and>
   pipeline_domain ipv6_reject extract_example ''user@example.com'' = Inr []"
proof -
  have h1: "CHR ''@'' \<in> set ''user@example.com''" by simp
  have h2: "\<not> str_in ''://'' ''user@example.com''" by simp
  show ?thesis
    using h1 h2 email_heuristic [OF h1 h2, of ipv6_reject extract_example] by blast
qed

section \<open>Labels: splitting and joining\<close>

lemma split_on_not_Nil [simp]: "split_on sep s \<noteq> []"
  by (induction s) (auto split: list.splits)

lemma split_on_no_sep: "p \<in> set (split_on sep s) \<Longrightarrow> sep \<notin> set p"
  by (induction s arbitrary: p) (auto split: if_splits list.splits)

lemma split_on_no_sep_word: "sep \<notin> set p \<Longrightarrow> split_on sep p = [p]"
  by (induction p) auto

lemma split_on_append:
  "sep \<notin> set p \<Longrightarrow> split_on sep (p @ sep # s) = p # split_on sep s"
  by (induction p) auto

lemma join_Cons: "ps \<noteq> [] \<Longrightarrow> join s (p # ps) = p @ s @ join s ps"
  by (cases ps) auto

lemma split_on_join:
  "ps \<noteq> [] \<Longrightarrow> (\<forall>p \<in> set ps. sep \<notin> set p) \<Longrightarrow> split_on sep (join [sep] ps) = ps"
proof (induction ps)
  case Nil
  then show ?case by simp
next
  case (Cons p ps)
  show ?case
  proof (cases "ps = []")
    case True
    then show ?thesis using Cons.prems by (simp add: split_on_no_sep_word)
  next
    case False
    then have "split_on sep (join [sep] ps) = ps" using Cons by simp
    then show ?thesis using False Cons.prems by (simp add: join_Cons split_on_append)
  qed
qed

lemma join_split_on: "join [sep] (split_on sep s) = s"
proof (induction s)
  case Nil
  then show ?case by simp
next
  case (Cons c s)
  show ?case
  proof (cases "c = sep")
    case True
    then show ?thesis using Cons by (simp add: join_Cons)
  next
    case False
    obtain p ps where e: "split_on sep s = p # ps" by (cases "split_on sep s") auto
    have "join [sep] ((c # p) # ps) = c # join [sep] (p # ps)"
      by (cases ps) auto
    then show ?thesis using False e Cons by simp
  qed
qed

lemma length_last_n [simp]: "length (last_n n xs) = min n (length xs)"
  by (auto simp: last_n_def)

lemma set_last_n: "set (last_n n xs) \<subseteq> set xs"
  by (simp add: last_n_def set_drop_subset)

lemma last_n_last_n: "m \<le> n \<Longrightarrow> last_n m (last_n n xs) = last_n m xs"
proof -
  assume "m \<le> n"
  then have "length xs - (length xs - n + m) + (length xs - n) = length xs - m" by arith
  then show ?thesis by (simp add: last_n_def)
qed

lemma last_n_all: "length xs \<le> n \<Longrightarrow> last_n n xs = xs"
  by (simp add: last_n_def)

lemma last_n_not_Nil: "xs \<noteq> [] \<Longrightarrow> 0 < n \<Longrightarrow> last_n n xs \<noteq> []"
  by (cases xs) (auto simp: last_n_def)

lemma split_join_last_n:
  "0 < n \<Longrightarrow> split_on sep (join [sep] (last_n n (split_on sep s))) = last_n n (split_on sep s)"
proof -
  assume n: "0 < n"
  have a: "last_n n (split_on sep s) \<noteq> []" using n by (simp add: last_n_not_Nil)
  have b: "\<forall>p \<in> set (last_n n (split_on sep s)). sep \<notin> set p"
    using set_last_n split_on_no_sep by fastforce
  show ?thesis using split_on_join [OF a b] .
qed

section \<open>The suffix table and the label rule\<close>

lemma table_two_labels: "e \<in> set MULTIPART_TLDS \<Longrightarrow> length (split_on CHR ''.'' e) = 2"
  by (auto simp: MULTIPART_TLDS_def)

lemma last_three_not_in_table:
  "(if 3 \<le> length (split_on CHR ''.'' host)
    then join ''.'' (last_n 3 (split_on CHR ''.'' host)) else []) \<notin> set MULTIPART_TLDS"
proof (cases "3 \<le> length (split_on CHR ''.'' host)")
  case True
  have "length (split_on CHR ''.'' (join ''.'' (last_n 3 (split_on CHR ''.'' host)))) = 3"
    using True by (simp add: split_join_last_n)
  then have "join ''.'' (last_n 3 (split_on CHR ''.'' host)) \<notin> set MULTIPART_TLDS"
    using table_two_labels by fastforce
  then show ?thesis using True by simp
next
  case False
  then show ?thesis by (simp add: MULTIPART_TLDS_def)
qed

lemma root_of_host_cases:
  "root_of_host host =
     (if length (split_on CHR ''.'' host) < 2 then host
      else if join ''.'' (last_n 2 (split_on CHR ''.'' host)) \<in> set MULTIPART_TLDS \<and>
              3 \<le> length (split_on CHR ''.'' host)
      then join ''.'' (last_n 3 (split_on CHR ''.'' host))
      else join ''.'' (last_n 2 (split_on CHR ''.'' host)))"
  using last_three_not_in_table [of host]
  by (simp add: root_of_host_def Let_def)

lemma root_of_host_idem: "root_of_host (root_of_host host) = root_of_host host"
proof -
  let ?parts = "split_on CHR ''.'' host"
  consider (short) "length ?parts < 2"
    | (three) "2 \<le> length ?parts" "join ''.'' (last_n 2 ?parts) \<in> set MULTIPART_TLDS" "3 \<le> length ?parts"
    | (two) "2 \<le> length ?parts" "\<not> (join ''.'' (last_n 2 ?parts) \<in> set MULTIPART_TLDS \<and> 3 \<le> length ?parts)"
    by linarith
  then show ?thesis
  proof cases
    case short
    then show ?thesis by (simp add: root_of_host_cases)
  next
    case three
    have r: "root_of_host host = join ''.'' (last_n 3 ?parts)"
      using three by (simp add: root_of_host_cases)
    have s: "split_on CHR ''.'' (join ''.'' (last_n 3 ?parts)) = last_n 3 ?parts"
      by (simp add: split_join_last_n)
    show ?thesis
      unfolding r using three
      by (simp add: root_of_host_cases [of "join ''.'' (last_n 3 ?parts)"] s last_n_last_n last_n_all)
  next
    case two
    have r: "root_of_host host = join ''.'' (last_n 2 ?parts)"
      using two by (auto simp: root_of_host_cases)
    have s: "split_on CHR ''.'' (join ''.'' (last_n 2 ?parts)) = last_n 2 ?parts"
      by (simp add: split_join_last_n)
    show ?thesis
      unfolding r using two(1)
      by (simp add: root_of_host_cases [of "join ''.'' (last_n 2 ?parts)"] s last_n_last_n last_n_all)
  qed
qed

lemma root_of_host_labels: "length (split_on CHR ''.'' (root_of_host host)) \<le> 3"
  by (auto simp: root_of_host_cases split_join_last_n)

section \<open>Ordinary host names pass through the URL parser unchanged\<close>

lemma host_char_code: "host_char c \<Longrightarrow> 45 \<le> (of_char c :: nat) \<and> (of_char c :: nat) \<le> 122 \<and> (of_char c :: nat) \<notin> {47, 58, 63, 64, 91, 93}"
  by (auto simp: host_char_def Let_def)

lemma host_char_neq:
  assumes "host_char c" and "(of_char d :: nat) \<in> {35, 37, 47, 58, 63, 64, 91, 93}"
  shows "c \<noteq> d"
proof
  assume "c = d"
  then have "(of_char c :: nat) = of_char d" by simp
  then show False using assms by (auto simp: host_char_def Let_def)
qed

lemma host_char_not_space: "host_char c \<Longrightarrow> \<not> is_space c"
  by (auto simp: host_char_def is_space_def Let_def)

lemma host_char_lower: "host_char c \<Longrightarrow> lower_char c = c"
  by (auto simp: host_char_def lower_char_def Let_def)

lemma dropWhile_none: "(\<forall>x \<in> set s. \<not> P x) \<Longrightarrow> dropWhile P s = s"
  by (cases s) auto

lemma plain_strip: "list_all host_char s \<Longrightarrow> strip s = s"
  by (simp add: strip_def dropWhile_none host_char_not_space list_all_iff)

lemma plain_lower: "list_all host_char s \<Longrightarrow> lower s = s"
  by (simp add: lower_def host_char_lower list_all_iff map_idI)

lemma plain_no_char:
  "list_all host_char s \<Longrightarrow> (of_char d :: nat) \<in> {35, 37, 47, 58, 63, 64, 91, 93} \<Longrightarrow> d \<notin> set s"
  using host_char_neq by (auto simp: list_all_iff)

lemma plain_no_scheme: "list_all host_char s \<Longrightarrow> \<not> str_in ''://'' s"
proof -
  assume a: "list_all host_char s"
  have "CHR '':'' \<notin> set s" using a by (rule plain_no_char) simp
  moreover have "sublist ''://'' s \<Longrightarrow> CHR '':'' \<in> set s"
    by (auto simp: sublist_def)
  ultimately show ?thesis unfolding str_in_sublist by blast
qed

lemma takeWhile_all: "(\<forall>x \<in> set s. P x) \<Longrightarrow> takeWhile P s = s"
  by (simp add: takeWhile_eq_all_conv)

lemma urlsplit_plain:
  assumes "list_all host_char s"
  shows "urlsplit_netloc ipv6_ok (''https://'' @ s) = Inr s"
proof -
  have f: "remove_unsafe s = s"
    using assms by (auto simp: remove_unsafe_def list_all_iff filter_id_conv host_char_def Let_def)
  have n: "CHR ''/'' \<notin> set s" "CHR ''?'' \<notin> set s" "CHR ''#'' \<notin> set s" "CHR ''['' \<notin> set s" "CHR '']'' \<notin> set s"
    using assms by (simp_all add: plain_no_char)
  have t: "takeWhile (\<lambda>c. c \<notin> {CHR ''/'', CHR ''?'', CHR ''#''}) s = s"
    using n by (intro takeWhile_all) auto
  have r: "remove_unsafe (lstrip_c0 (''https://'' @ s)) = ''https://'' @ s"
    using f by (simp add: lstrip_c0_def remove_unsafe_def)
  have d: "drop_scheme (''https://'' @ s) = ''//'' @ s"
    by (simp add: drop_scheme_def before_first_def after_first_def is_ascii_alpha_def scheme_char_def is_digit_def Let_def)
  have u: "drop_scheme (remove_unsafe (lstrip_c0 (''https://'' @ s))) = ''//'' @ s"
    by (simp only: r d)
  have sn: "splitnetloc (''//'' @ s) = s"
    using t by (simp add: splitnetloc_def)
  show ?thesis
    unfolding urlsplit_netloc_def u Let_def using n sn by simp
qed

lemma hostname_plain:
  assumes "plain_host s"
  shows "hostname_of s = Some s"
proof -
  have a: "list_all host_char s" and ne: "s \<noteq> []" using assms by (simp_all add: plain_host_def)
  have n: "CHR ''@'' \<notin> set s" "CHR '':'' \<notin> set s" "CHR ''%'' \<notin> set s" "CHR ''['' \<notin> set s"
    using a by (simp_all add: plain_no_char)
  have "takeWhile (\<lambda>x. x \<noteq> CHR ''@'') (rev s) = rev s"
    using n(1) by (auto simp: takeWhile_eq_all_conv)
  then have 1: "after_last CHR ''@'' s = s"
    by (simp only: after_last_def rev_rev_ident)
  have 2: "before_first CHR '':'' s = s" "before_first CHR ''%'' s = s"
    using n by (auto simp: before_first_def takeWhile_eq_all_conv)
  have 3: "dropWhile (\<lambda>x. x \<noteq> CHR ''%'') s = []"
    using n(3) by (auto simp: dropWhile_eq_Nil_conv)
  show ?thesis
    using ne n(4) by (simp add: hostname_of_def 1 2 3 plain_lower [OF a] Let_def)
qed

lemma normalize_domain_plain:
  assumes "plain_host (lower (strip raw))"
  shows "normalize_domain ipv6_ok raw = Inr (root_of_host (strip_prefixes (lower (strip raw))))"
proof -
  let ?s = "lower (strip raw)"
  have a: "list_all host_char ?s" and ne: "?s \<noteq> []" using assms by (simp_all add: plain_host_def)
  have raw: "raw \<noteq> []" using ne by (auto simp: lower_def strip_def)
  have at: "CHR ''@'' \<notin> set ?s" using a by (simp add: plain_no_char)
  have u: "urlparse_hostname ipv6_ok (''https://'' @ ?s) = Inr (Some ?s)"
    using urlsplit_plain [OF a, of ipv6_ok]
    by (simp add: urlparse_hostname_def hostname_plain [OF assms])
  show ?thesis
    using raw ne at plain_no_scheme [OF a] u
    by (simp add: normalize_domain_def Let_def del: str_in.simps)
qed

lemma plain_host_fixed: "plain_host s \<Longrightarrow> lower (strip s) = s"
  by (simp add: plain_host_def plain_strip plain_lower)

lemma normalize_domain_shape:
  assumes "normalize_domain ipv6_ok raw = Inr r"
  shows "r = [] \<or> (\<exists>h. h \<noteq> [] \<and> r = root_of_host (strip_prefixes h))"
  using assms
  by (auto simp: normalize_domain_def Let_def simp del: str_in.simps split: if_splits sum.splits option.splits)

lemma normalize_domain_error:
  assumes "normalize_domain ipv6_ok raw = Inl e"
  shows "e = ValueError"
  using assms
  by (auto simp: normalize_domain_def urlparse_hostname_def urlsplit_netloc_def Let_def simp del: str_in.simps split: if_splits sum.splits option.splits)

section \<open>Idempotence of normalize_domain\<close>

text \<open>
  Claim C1, as stated, fails: \<open>m.co.uk\<close> is the result of \<open>normalize_domain\<close> on
  \<open>www.m.co.uk\<close> (one prefix is removed, then the suffix table keeps three labels), and
  normalizing it again removes the \<open>m.\<close> prefix and gives \<open>co.uk\<close>.
\<close>

theorem normalize_domain_not_idempotent:
  "normalize_domain ipv6_reject ''www.m.co.uk'' = Inr ''m.co.uk'' \<and>
   normalize_domain ipv6_reject ''m.co.uk'' = Inr ''co.uk'' \<and>
   normalize_domain ipv6_reject ''m.co.uk'' \<noteq> Inr ''m.co.uk''"
  by code_simp

text \<open>
  Claim C1, amended. A result \<open>x\<close> of \<open>normalize_domain\<close> that is empty, or that is an
  ordinary host name (lower-case letters, digits, hyphens, dots) not starting with
  \<open>www.\<close> or \<open>m.\<close>, is a fixed point: \<open>normalize_domain(x) == x\<close>.
\<close>

theorem normalize_domain_idempotent:
  assumes "normalize_domain ipv6_ok y = Inr x"
    and "x = [] \<or> (plain_host x \<and> \<not> prefix ''www.'' x \<and> \<not> prefix ''m.'' x)"
  shows "normalize_domain ipv6_ok x = Inr x"
proof (cases "x = []")
  case True
  then show ?thesis by (simp add: normalize_domain_def)
next
  case False
  then have p: "plain_host x" and s: "strip_prefixes x = x"
    using assms(2) by (simp_all add: strip_prefixes_def)
  obtain h where "x = root_of_host (strip_prefixes h)"
    using normalize_domain_shape [OF assms(1)] False by blast
  then have "root_of_host x = x"
    by (simp add: root_of_host_idem)
  then show ?thesis
    using normalize_domain_plain [of x ipv6_ok] p s by (simp add: plain_host_fixed)
qed

theorem normalize_domain_idempotent_witness:
  "normalize_domain ipv6_reject ''https://www.example.com/path'' = Inr ''example.com'' \<and>
   plain_host ''example.com'' \<and> \<not> prefix ''www.'' ''example.com'' \<and>
   \<not> prefix ''m.'' ''example.com'' \<and>
   normalize_domain ipv6_reject ''example.com'' = Inr ''example.com''"
proof -
  have h1: "normalize_domain ipv6_reject ''https://www.example.com/path'' = Inr ''example.com''"
    by code_simp
  have h2: "plain_host ''example.com'' \<and> \<not> prefix ''www.'' ''example.com'' \<and>
            \<not> prefix ''m.'' ''example.com''"
    by code_simp
  show ?thesis
    using h1 h2 normalize_domain_idempotent [OF h1] by blast
qed

section \<open>The multi-part suffix table\<close>

text \<open>
  Claim C7, as stated, fails: the labels are counted after the prefix is stripped, not
  on the host handed to \<open>normalize_domain\<close>. The host \<open>www.gov.uk\<close> has three labels
  and its last two are in the table, yet the result is \<open>gov.uk\<close>, not the last three
  labels: \<open>www.\<close> is removed first and two labels are left.
\<close>

theorem www_host_keeps_two_labels:
  "3 \<le> length (split_on CHR ''.'' ''www.gov.uk'') \<and>
   join ''.'' (last_n 2 (split_on CHR ''.'' ''www.gov.uk'')) \<in> set MULTIPART_TLDS \<and>
   join ''.'' (last_n 3 (split_on CHR ''.'' ''www.gov.uk'')) = ''www.gov.uk'' \<and>
   normalize_domain ipv6_reject ''www.gov.uk'' = Inr ''gov.uk'' \<and>
   normalize_domain ipv6_reject ''www.gov.uk'' \<noteq> Inr ''www.gov.uk''"
  by code_simp

text \<open>
  Claim C7, amended. Let \<open>host\<close> be the host at line 29, after one leading \<open>www.\<close> or
  \<open>m.\<close> is stripped. When \<open>host\<close> has at least three labels and its last two labels,
  joined by a dot, are in the table, lines 29 to 42 return the last three labels of
  \<open>host\<close> joined by dots; and so does \<open>normalize_domain\<close> on every raw string that is,
  once trimmed and lower-cased, an ordinary host name with that \<open>host\<close> left after the
  prefix is stripped.
\<close>

theorem multipart_suffix:
  assumes "3 \<le> length (split_on CHR ''.'' host)"
    and "join ''.'' (last_n 2 (split_on CHR ''.'' host)) \<in> set MULTIPART_TLDS"
  shows "root_of_host host = join ''.'' (last_n 3 (split_on CHR ''.'' host)) \<and>
         (plain_host (lower (strip raw)) \<and> strip_prefixes (lower (strip raw)) = host \<longrightarrow>
          normalize_domain ipv6_ok raw = Inr (join ''.'' (last_n 3 (split_on CHR ''.'' host))))"
proof -
  have r: "root_of_host host = join ''.'' (last_n 3 (split_on CHR ''.'' host))"
    using assms by (simp add: root_of_host_cases)
  show ?thesis
    using r normalize_domain_plain [of raw ipv6_ok] by simp
qed

text \<open>The example of the specification: \<open>sub.example.co.uk\<close> gives \<open>example.co.uk\<close>.\<close>

theorem multipart_suffix_witness:
  "3 \<le> length (split_on CHR ''.'' ''sub.example.co.uk'') \<and>
   join ''.'' (last_n 2 (split_on CHR ''.'' ''sub.example.co.uk'')) \<in> set MULTIPART_TLDS \<and>
   plain_host (lower (strip ''sub.example.co.uk'')) \<and>
   strip_prefixes (lower (strip ''sub.example.co.uk'')) = ''sub.example.co.uk'' \<and>
   join ''.'' (last_n 3 (split_on CHR ''.'' ''sub.example.co.uk'')) = ''example.co.uk'' \<and>
   root_of_host ''sub.example.co.uk'' = ''example.co.uk'' \<and>
   normalize_domain ipv6_reject ''sub.example.co.uk'' = Inr ''example.co.uk''"
proof -
  have h1: "3 \<le> length (split_on CHR ''.'' ''sub.example.co.uk'')" by code_simp
  have h2: "join ''.'' (last_n 2 (split_on CHR ''.'' ''sub.example.co.uk'')) \<in> set MULTIPART_TLDS"
    by code_simp
  have h3: "plain_host (lower (strip ''sub.example.co.uk'')) \<and>
            strip_prefixes (lower (strip ''sub.example.co.uk'')) = ''sub.example.co.uk''"
    by code_simp
  have h4: "join ''.'' (last_n 3 (split_on CHR ''.'' ''sub.example.co.uk'')) = ''example.co.uk''"
    by code_simp
  show ?thesis
    using h1 h2 h3 h4 multipart_suffix [OF h1 h2, of "''sub.example.co.uk''" ipv6_reject]
    by (simp only: simp_thms)
qed

section \<open>The four-label branch\<close>

text \<open>
  Claim C9. Every entry of the suffix table has exactly two labels, whereas the last
  three labels of a host, joined, have three: the test of the four-label branch is false
  for every host. So lines 29 to 42 return the host itself (fewer than two labels), its
  last two labels or its last three labels, and every result of \<open>normalize_domain\<close> is
  the empty string or one of these for the prefix-stripped host name, with at most three
  labels. The only exception that leaves \<open>normalize_domain\<close> is the \<open>ValueError\<close> of the
  URL parser.
\<close>

theorem four_label_branch_unreachable:
  "list_all (\<lambda>e. length (split_on CHR ''.'' e) = 2) MULTIPART_TLDS \<and>
   (if 3 \<le> length (split_on CHR ''.'' host)
    then join ''.'' (last_n 3 (split_on CHR ''.'' host)) else []) \<notin> set MULTIPART_TLDS \<and>
   root_of_host host \<in>
     {host, join ''.'' (last_n 2 (split_on CHR ''.'' host)),
      join ''.'' (last_n 3 (split_on CHR ''.'' host))} \<and>
   (root_of_host host = host \<or> 2 \<le> length (split_on CHR ''.'' host)) \<and>
   (normalize_domain ipv6_ok raw = Inr r \<longrightarrow>
      (r = [] \<or> (\<exists>h. h \<noteq> [] \<and> r = root_of_host (strip_prefixes h))) \<and>
      length (split_on CHR ''.'' r) \<le> 3) \<and>
   (normalize_domain ipv6_ok raw = Inl e \<longrightarrow> e = ValueError)"
proof -
  have 1: "list_all (\<lambda>e. length (split_on CHR ''.'' e) = 2) MULTIPART_TLDS"
    by (simp add: MULTIPART_TLDS_def)
  have 3: "root_of_host host \<in>
     {host, join ''.'' (last_n 2 (split_on CHR ''.'' host)),
      join ''.'' (last_n 3 (split_on CHR ''.'' host))}"
    by (simp add: root_of_host_cases)
  have 4: "root_of_host host = host \<or> 2 \<le> length (split_on CHR ''.'' host)"
    by (auto simp: root_of_host_cases)
  have 5: "normalize_domain ipv6_ok raw = Inr r \<longrightarrow>
      (r = [] \<or> (\<exists>h. h \<noteq> [] \<and> r = root_of_host (strip_prefixes h))) \<and>
      length (split_on CHR ''.'' r) \<le> 3"
  proof
    assume a: "normalize_domain ipv6_ok raw = Inr r"
    have s: "r = [] \<or> (\<exists>h. h \<noteq> [] \<and> r = root_of_host (strip_prefixes h))"
      using normalize_domain_shape [OF a] .
    then have "length (split_on CHR ''.'' r) \<le> 3"
      using root_of_host_labels by auto
    then show "(r = [] \<or> (\<exists>h. h \<noteq> [] \<and> r = root_of_host (strip_prefixes h))) \<and>
      length (split_on CHR ''.'' r) \<le> 3"
      using s by simp
  qed
  have 6: "normalize_domain ipv6_ok raw = Inl e \<longrightarrow> e = ValueError"
    using normalize_domain_error by blast
  show ?thesis
    using 1 last_three_not_in_table [of host] 3 4 5 6 by (simp only: simp_thms)
qed

theorem four_label_branch_unreachable_witness:
  "normalize_domain ipv6_reject ''a.b.example.co.uk'' = Inr ''example.co.uk'' \<and>
   length (split_on CHR ''.'' ''example.co.uk'') \<le> 3 \<and>
   ''example.co.uk'' \<notin> set MULTIPART_TLDS \<and>
   root_of_host ''a.b.example.co.uk'' = ''example.co.uk''"
proof -
  have h1: "normalize_domain ipv6_reject ''a.b.example.co.uk'' = Inr ''example.co.uk''"
    by code_simp
  have h2: "root_of_host ''a.b.example.co.uk'' = ''example.co.uk''"
    by code_simp
  have h3: "(if 3 \<le> length (split_on CHR ''.'' ''a.b.example.co.uk'')
    then join ''.'' (last_n 3 (split_on CHR ''.'' ''a.b.example.co.uk'')) else []) = ''example.co.uk''"
    by code_simp
  show ?thesis
    using h1 h2 h3
      four_label_branch_unreachable [of "''a.b.example.co.uk''" ipv6_reject "''a.b.example.co.uk''"
        "''example.co.uk''" ValueError]
    by (simp only: simp_thms sum.inject)
qed

section \<open>extract_domains: order and duplicates\<close>

lemma first_seen_snoc:
  "first_seen (xs @ [x]) = (if x \<in> set xs then first_seen xs else first_seen xs @ [x])"
  by (simp add: first_seen_def)

lemma set_first_seen [simp]: "set (first_seen xs) = set xs"
  by (simp add: first_seen_def)

lemma foldl_keep_new:
  "foldl keep_new (first_seen (filter (\<lambda>d. d \<noteq> []) pre)) ds =
   first_seen (filter (\<lambda>d. d \<noteq> []) (pre @ ds))"
proof (induction ds arbitrary: pre)
  case Nil
  then show ?case by simp
next
  case (Cons d ds)
  have "keep_new (first_seen (filter (\<lambda>d. d \<noteq> []) pre)) d =
        first_seen (filter (\<lambda>d. d \<noteq> []) (pre @ [d]))"
    by (simp add: keep_new_def first_seen_snoc)
  then show ?case using Cons [of "pre @ [d]"] by simp
qed

lemma foldl_keep_new_Nil:
  "foldl keep_new [] ds = first_seen (filter (\<lambda>d. d \<noteq> []) ds)"
  using foldl_keep_new [of "[]" ds] by (simp add: first_seen_def)

lemma normalize_each_append:
  "normalize_each f (xs @ ys) =
     (case normalize_each f xs of
        Inl e \<Rightarrow> Inl e
      | Inr ds \<Rightarrow> (case normalize_each f ys of Inl e \<Rightarrow> Inl e | Inr ds' \<Rightarrow> Inr (ds @ ds')))"
  by (induction xs) (auto split: sum.splits)

lemma normalize_domain_value_str: "normalize_domain_value f (JStr u) = normalize_domain f u"
  by (simp add: normalize_domain_value_def normalize_domain_def)

lemma uris_loop_entries:
  "uris_loop f (map uri_entry us) (set acc, acc) =
     (case normalize_each f us of
        Inl e \<Rightarrow> Inl e
      | Inr ds \<Rightarrow> Inr (set (foldl keep_new acc ds), foldl keep_new acc ds))"
proof (induction us arbitrary: acc)
  case Nil
  then show ?case by simp
next
  case (Cons u us)
  have g: "py_get (py_or (uri_entry u) (JDict [])) ''uri'' (JStr []) = Inr (JStr u)"
    by (simp add: uri_entry_def py_or_def)
  show ?case
  proof (cases "normalize_domain f u")
    case (Inl e)
    then show ?thesis by (simp add: g normalize_domain_value_str)
  next
    case (Inr d)
    have k: "set (keep_new acc d) = (if d \<noteq> [] \<and> d \<notin> set acc then insert d (set acc) else set acc)"
      by (simp add: keep_new_def)
    show ?thesis
      using Cons [of "keep_new acc d"] Inr
      by (auto simp: g normalize_domain_value_str keep_new_def split: sum.splits)
  qed
qed

lemma items_loop_items:
  "items_loop f (map item_of uss) (set acc, acc) =
     (case normalize_each f (concat uss) of
        Inl e \<Rightarrow> Inl e
      | Inr ds \<Rightarrow> Inr (set (foldl keep_new acc ds), foldl keep_new acc ds))"
proof (induction uss arbitrary: acc)
  case Nil
  then show ?case by simp
next
  case (Cons us uss)
  have i: "py_iter (py_or (JList (map uri_entry us)) (JList [])) = Inr (map uri_entry us)"
    by (cases us) (simp_all add: py_or_def)
  have h: "items_loop f (item_of us # map item_of uss) (set acc, acc) =
     (case uris_loop f (map uri_entry us) (set acc, acc) of
        Inl e \<Rightarrow> Inl e | Inr st' \<Rightarrow> items_loop f (map item_of uss) st')"
    by (simp add: item_of_def py_or_def i)
  show ?case
    using Cons
    by (simp del: items_loop.simps add: h uris_loop_entries normalize_each_append split: sum.splits)
qed

text \<open>
  Claim C3, as stated, fails: the set \<open>seen\<close> holds normalized domains, not raw URI
  strings. Two distinct raw strings with the same normalized domain give one entry.
\<close>

theorem raw_strings_not_both_emitted:
  "''https://example.com'' \<noteq> ''https://www.example.com'' \<and>
   extract_domains ipv6_reject
     (Inr (vault_of [[''https://example.com'', ''https://www.example.com'']])) =
   Inr [''example.com'']"
  by code_simp

text \<open>
  Claim C3, amended. For every export of the documented shape, \<open>extract_domains\<close>
  returns the normalized domains of the raw URI strings, in the order of the export,
  without the empty ones and keeping only the first occurrence of each normalized
  domain; it raises when \<open>normalize_domain\<close> raises on one of the strings.
\<close>

theorem extract_domains_dedup:
  "extract_domains f (Inr (vault_of uss)) =
     (case normalize_each f (concat uss) of
        Inl e \<Rightarrow> Inl e
      | Inr ds \<Rightarrow> Inr (first_seen (filter (\<lambda>d. d \<noteq> []) ds)))"
  using items_loop_items [of f uss "[]"]
  by (simp add: extract_domains_def vault_of_def foldl_keep_new_Nil split: sum.splits)

theorem extract_domains_dedup_witness:
  "extract_domains ipv6_reject
     (Inr (vault_of [[''https://example.com'', ''https://test.org''],
                     [''https://www.example.com'', ''user@x.com'', [], ''sub.test.org'']])) =
   Inr [''example.com'', ''test.org'']"
proof -
  have r: "(case normalize_each ipv6_reject
              (concat [[''https://example.com'', ''https://test.org''],
                       [''https://www.example.com'', ''user@x.com'', [], ''sub.test.org'']]) of
              Inl e \<Rightarrow> Inl e
            | Inr ds \<Rightarrow> Inr (first_seen (filter (\<lambda>d. d \<noteq> []) ds))) =
           Inr [''example.com'', ''test.org'']"
    by code_simp
  show ?thesis
    by (rule trans [OF extract_domains_dedup r])
qed

section \<open>extract_domains: entries that are skipped\<close>

lemma uris_loop_append:
  "uris_loop f (us @ vs) st =
     (case uris_loop f us st of Inl e \<Rightarrow> Inl e | Inr st' \<Rightarrow> uris_loop f vs st')"
proof (induction us arbitrary: st)
  case Nil
  then show ?case by simp
next
  case (Cons u us)
  obtain seen ordered where st: "st = (seen, ordered)" by (cases st)
  show ?case
    unfolding st using Cons by (simp split: sum.splits)
qed

lemma py_get_blank_uri:
  "blank_uri u \<Longrightarrow> \<exists>raw. py_get (py_or u (JDict [])) ''uri'' (JStr []) = Inr raw \<and> \<not> truthy raw"
  by (cases u) (auto simp: blank_uri_def py_or_def split: option.splits)

lemma uris_loop_skip:
  assumes "blank_uri u \<or> (u = uri_entry s \<and> normalize_domain f s = Inr [])"
  shows "uris_loop f (u # vs) st = uris_loop f vs st"
proof -
  obtain seen ordered where st: "st = (seen, ordered)" by (cases st)
  from assms show ?thesis
  proof
    assume "blank_uri u"
    then obtain raw where "py_get (py_or u (JDict [])) ''uri'' (JStr []) = Inr raw" "\<not> truthy raw"
      using py_get_blank_uri by blast
    then show ?thesis unfolding st by (simp add: normalize_domain_value_def)
  next
    assume a: "u = uri_entry s \<and> normalize_domain f s = Inr []"
    then have "py_get (py_or u (JDict [])) ''uri'' (JStr []) = Inr (JStr s)"
      by (simp add: uri_entry_def py_or_def)
    then show ?thesis unfolding st using a by (simp add: normalize_domain_value_str)
  qed
qed

lemma uris_loop_blank: "list_all blank_uri ul \<Longrightarrow> uris_loop f ul st = Inr st"
proof (induction ul)
  case Nil
  then show ?case by simp
next
  case (Cons u ul)
  then show ?case using uris_loop_skip [of u undefined f ul st] by simp
qed

lemma items_loop_append:
  "items_loop f (xs @ ys) st =
     (case items_loop f xs st of Inl e \<Rightarrow> Inl e | Inr st' \<Rightarrow> items_loop f ys st')"
  by (induction xs arbitrary: st) (auto split: sum.splits)

lemma items_loop_login_item:
  "items_loop f (login_item us # ys) st =
     (case uris_loop f us st of Inl e \<Rightarrow> Inl e | Inr st' \<Rightarrow> items_loop f ys st')"
  by (cases us) (simp_all add: login_item_def py_or_def)

lemma blank_uris_iter:
  "blank_uris us \<Longrightarrow> \<exists>ul. py_iter (py_or us (JList [])) = Inr ul \<and> list_all blank_uri ul"
  by (cases us) (auto simp: blank_uris_def py_or_def)

lemma blank_login_uris:
  "blank_login l \<Longrightarrow> \<exists>us. py_get (py_or l (JDict [])) ''uris'' JNull = Inr us \<and> blank_uris us"
  by (cases l) (auto simp: blank_login_def blank_uris_def py_or_def split: option.splits)

lemma blank_item_login:
  "blank_item it \<Longrightarrow> \<exists>l. py_get it ''login'' (JDict []) = Inr l \<and> blank_login l"
proof -
  assume a: "blank_item it"
  have e: "blank_login (JDict [])" by (simp add: blank_login_def)
  show ?thesis
    using a e by (cases it) (auto simp: blank_item_def split: option.splits)
qed

lemma items_loop_skip:
  assumes "blank_item it"
  shows "items_loop f (it # ys) st = items_loop f ys st"
proof -
  obtain l where l: "py_get it ''login'' (JDict []) = Inr l" "blank_login l"
    using blank_item_login [OF assms] by blast
  obtain us where us: "py_get (py_or l (JDict [])) ''uris'' JNull = Inr us" "blank_uris us"
    using blank_login_uris [OF l(2)] by blast
  obtain ul where ul: "py_iter (py_or us (JList [])) = Inr ul" "list_all blank_uri ul"
    using blank_uris_iter [OF us(2)] by blast
  show ?thesis
    by (simp add: l(1) us(1) ul(1) uris_loop_blank [OF ul(2)])
qed

lemma extract_domains_items:
  "extract_domains f (vault_items its) =
     (case items_loop f its ({}, []) of Inl e \<Rightarrow> Inl e | Inr st \<Rightarrow> Inr (snd st))"
  by (simp add: extract_domains_def vault_items_def)

text \<open>
  What is skipped: an item without a usable \<open>login\<close> or \<open>uris\<close> (\<open>blank_item\<close>), a URI
  entry without a usable \<open>uri\<close> (\<open>blank_uri\<close>) and a URI string that \<open>normalize_domain\<close>
  maps to the empty string. The result, value or exception, is the one of the export
  without them.
\<close>

lemma skipped_entries:
  "(blank_item it \<longrightarrow>
      extract_domains f (vault_items (xs @ it # ys)) = extract_domains f (vault_items (xs @ ys))) \<and>
   (blank_uri u \<or> (u = uri_entry s \<and> normalize_domain f s = Inr []) \<longrightarrow>
      extract_domains f (vault_items (xs @ login_item (us @ u # vs) # ys)) =
      extract_domains f (vault_items (xs @ login_item (us @ vs) # ys)))"
proof -
  have 2: "blank_item it \<longrightarrow>
      extract_domains f (vault_items (xs @ it # ys)) = extract_domains f (vault_items (xs @ ys))"
  proof
    assume a: "blank_item it"
    have "\<And>st. items_loop f (it # ys) st = items_loop f ys st"
      using items_loop_skip [OF a] .
    then show "extract_domains f (vault_items (xs @ it # ys)) = extract_domains f (vault_items (xs @ ys))"
      by (simp add: extract_domains_items items_loop_append del: items_loop.simps split: sum.splits)
  qed
  have 3: "blank_uri u \<or> (u = uri_entry s \<and> normalize_domain f s = Inr []) \<longrightarrow>
      extract_domains f (vault_items (xs @ login_item (us @ u # vs) # ys)) =
      extract_domains f (vault_items (xs @ login_item (us @ vs) # ys))"
  proof
    assume a: "blank_uri u \<or> (u = uri_entry s \<and> normalize_domain f s = Inr [])"
    have "\<And>st. uris_loop f (us @ u # vs) st = uris_loop f (us @ vs) st"
      by (simp add: uris_loop_append uris_loop_skip [OF a] del: uris_loop.simps split: sum.splits)
    then show "extract_domains f (vault_items (xs @ login_item (us @ u # vs) # ys)) =
      extract_domains f (vault_items (xs @ login_item (us @ vs) # ys))"
      by (simp add: extract_domains_items items_loop_append items_loop_login_item
            del: items_loop.simps split: sum.splits)
  qed
  show ?thesis using 2 3 by (simp only: simp_thms)
qed

text \<open>
  Claim C6 says that \<open>extract_domains\<close> skips a malformed entry silently, whatever its
  shape, and fails only on the export file. The source does not keep it for a URI that
  the URL parser rejects. Every other unusable input of \<open>normalize_domain\<close> gives the
  empty string (an empty value at line 10, an e-mail address at line 15, no host at
  line 24), which \<open>extract_domains\<close> skips; but \<open>urlparse\<close> raises \<open>ValueError\<close> on
  \<open>http://[\<close>, line 20 does not catch it, and the exception leaves \<open>extract_domains\<close>
  with no domain returned, also for the well-formed entries beside it.
\<close>

theorem malformed_uri_raises:
  "extract_domains ipv6_reject (Inr (vault_of [[[], ''user@example.com'', ''https://'']])) = Inr [] \<and>
   extract_domains ipv6_reject (Inr (vault_of [[''http://['']])) = Inl ValueError \<and>
   extract_domains ipv6_reject (Inr (vault_of [[''https://example.com'', ''http://['']])) =
     Inl ValueError"
  by code_simp

section \<open>lookup_tosdr: cache hits\<close>

text \<open>
  Claim C5. When the cache file holds a dictionary with the domain as a key,
  \<open>lookup_tosdr\<close> returns the record stored under it and leaves the world as it was:
  no request is sent, nothing is slept, the cache file is not written.
\<close>

theorem cache_hit:
  assumes "cache_file w = Some (Inr (JDict kvs))" and "map_of kvs d = Some cached"
  shows "lookup_tosdr net w d = (Inr cached, w) \<and>
         requests_made (snd (lookup_tosdr net w d)) = requests_made w \<and>
         sleeps (snd (lookup_tosdr net w d)) = sleeps w"
proof -
  have "d \<in> fst ` set kvs"
    using assms(2) by (metis domI dom_map_of_conv_image_fst)
  then have "lookup_tosdr net w d = (Inr cached, w)"
    using assms by (simp add: lookup_tosdr_def load_cache_def)
  then show ?thesis by simp
qed

theorem cache_hit_witness:
  "cache_file cached_world =
     Some (Inr (JDict [(''google.com'',
       JDict [(''grade'', JStr ''E''), (''service_id'', JNum 217), (''name'', JStr ''Google'')])])) \<and>
   lookup_tosdr net_down cached_world ''google.com'' =
     (Inr (JDict [(''grade'', JStr ''E''), (''service_id'', JNum 217), (''name'', JStr ''Google'')]),
      cached_world) \<and>
   requests_made (snd (lookup_tosdr net_down cached_world ''google.com'')) = [] \<and>
   sleeps (snd (lookup_tosdr net_down cached_world ''google.com'')) = 0"
proof -
  have h1: "cache_file cached_world =
     Some (Inr (JDict [(''google.com'',
       JDict [(''grade'', JStr ''E''), (''service_id'', JNum 217), (''name'', JStr ''Google'')])]))"
    by (simp add: cached_world_def)
  have h2: "map_of [(''google.com'',
       JDict [(''grade'', JStr ''E''), (''service_id'', JNum 217), (''name'', JStr ''Google'')])]
      ''google.com'' =
     Some (JDict [(''grade'', JStr ''E''), (''service_id'', JNum 217), (''name'', JStr ''Google'')])"
    by simp
  have h3: "requests_made cached_world = [] \<and> sleeps cached_world = 0"
    by (simp add: cached_world_def)
  show ?thesis
    using h1 h3 cache_hit [OF h1 h2, of net_down] by simp
qed

section \<open>lookup_tosdr: failures\<close>

text \<open>
  The failures the source handles: when the cache file is absent, unreadable or a
  dictionary without the domain, and the request raises, the status is not a success,
  or the body has no \<open>parameters\<close> or no services, the default record is returned,
  stored in the cache, and one sleep is made.
\<close>

lemma try_search_default:
  assumes "resp = Raises \<or> resp = Response False body \<or>
           resp = Response True (Inr (JDict [])) \<or>
           resp = Response True (Inr (JDict [(''parameters'', JDict [(''services'', JList [])])]))"
  shows "(case try_search resp d of
            Inl e \<Rightarrow> if e = RequestException then Inr (default_record d) else Inl e
          | Inr out \<Rightarrow> Inr out) = Inr (default_record d)"
  using assms by (auto simp: try_search_def best_match_def)

lemma lookup_failure_default:
  assumes "load_cache w = JDict kvs" and "d \<notin> fst ` set kvs"
    and "net d = Raises \<or> net d = Response False body \<or>
         net d = Response True (Inr (JDict [])) \<or>
         net d = Response True (Inr (JDict [(''parameters'', JDict [(''services'', JList [])])]))"
  shows "lookup_tosdr net w d =
           (Inr (default_record d),
            \<lparr>cache_file = Some (Inr (JDict (dict_set kvs d (default_record d)))),
             requests_made = requests_made w @ [d], sleeps = sleeps w + 1\<rparr>)"
  using assms(1,2) try_search_default [OF assms(3)]
  by (simp add: lookup_tosdr_def save_cache_def)

text \<open>
  Claim C2 says that \<open>lookup_tosdr\<close> never raises, whatever the domain, the cache and
  the response, and returns the default record on every failure. The source does not
  keep it: the loop of \<open>_best_match\<close> tests \<open>isinstance(service, dict)\<close>, the fallback
  \<open>services[0]\<close> does not. On a successful response whose first service is not a
  dictionary, \<open>service.get\<close> raises \<open>AttributeError\<close>, which
  \<open>except requests.RequestException\<close> does not catch: the exception leaves
  \<open>lookup_tosdr\<close> after the request was sent, no record is returned and none is cached.
\<close>

theorem lookup_raises_on_bare_service:
  "lookup_tosdr net_bare_string empty_world ''example.com'' =
     (Inl AttributeError,
      \<lparr>cache_file = None, requests_made = [''example.com''], sleeps = 0\<rparr>)"
  by code_simp

section \<open>The two normalizers\<close>

lemma normalize_nonempty: "url \<noteq> [] \<Longrightarrow> normalize extract url \<noteq> []"
  by (auto simp: normalize_def lower_def split: prod.splits)

lemma normalize_loop_foldl:
  "normalize_loop extract ds acc = foldl keep_new acc (map (normalize extract) ds)"
  by (induction ds arbitrary: acc) (simp_all add: keep_new_def Let_def)

text \<open>
  Claim C8, as stated, fails: on \<open>user@example.com\<close> the first normalizer returns the
  empty string, and the second one does not, whatever \<open>tldextract\<close> answers (with its
  actual answer it returns \<open>example.com\<close>).
\<close>

theorem normalizers_differ:
  "normalize_domain ipv6_reject ''user@example.com'' = Inr [] \<and>
   normalize extract_example ''user@example.com'' = ''example.com'' \<and>
   (\<forall>extract. normalize extract ''user@example.com'' \<noteq> [])"
proof -
  have 1: "normalize_domain ipv6_reject ''user@example.com'' = Inr []"
    by code_simp
  have 2: "normalize extract_example ''user@example.com'' = ''example.com''"
    by code_simp
  have 3: "\<forall>extract. normalize extract ''user@example.com'' \<noteq> []"
    using normalize_nonempty by blast
  show ?thesis using 1 2 3 by (simp only: simp_thms)
qed

text \<open>
  Claim C8, amended. The two functions agree on the empty string. On a non-empty
  string the second one never returns the empty string, so they differ wherever the
  first one does. The pipeline applies the second on top of the first's results: step 2
  of \<open>main\<close> returns the non-empty results of \<open>normalize\<close> on the list that
  \<open>extract_domains\<close> gave, in order, each kept at its first occurrence.
\<close>

theorem normalizers_compared:
  "normalize extract [] = [] \<and> normalize_domain ipv6_ok [] = Inr [] \<and>
   (url \<noteq> [] \<longrightarrow> normalize extract url \<noteq> []) \<and>
   (raw \<noteq> [] \<and> normalize_domain ipv6_ok raw = Inr [] \<longrightarrow>
      Inr (normalize extract raw) \<noteq> normalize_domain ipv6_ok raw) \<and>
   normalize_loop extract domains [] =
     first_seen (filter (\<lambda>d. d \<noteq> []) (map (normalize extract) domains))"
proof -
  have 1: "normalize extract [] = [] \<and> normalize_domain ipv6_ok [] = Inr []"
    by (simp add: normalize_def normalize_domain_def)
  have 2: "url \<noteq> [] \<longrightarrow> normalize extract url \<noteq> []"
    using normalize_nonempty by blast
  have 3: "raw \<noteq> [] \<and> normalize_domain ipv6_ok raw = Inr [] \<longrightarrow>
      Inr (normalize extract raw) \<noteq> normalize_domain ipv6_ok raw"
    using normalize_nonempty [of raw "extract"] by auto
  have 4: "normalize_loop extract domains [] =
     first_seen (filter (\<lambda>d. d \<noteq> []) (map (normalize extract) domains))"
    by (simp add: normalize_loop_foldl foldl_keep_new_Nil)
  show ?thesis using 1 2 3 4 by (simp only: simp_thms)
qed

theorem normalizers_compared_witness:
  "normalize_domain ipv6_reject ''user@example.com'' = Inr [] \<and>
   Inr (normalize extract_example ''user@example.com'') \<noteq>
     normalize_domain ipv6_reject ''user@example.com'' \<and>
   normalize_loop extract_example [''example.com'', ''www.example.com''] [] = [''example.com'']"
proof -
  have h1: "''user@example.com'' \<noteq> [] \<and> normalize_domain ipv6_reject ''user@example.com'' = Inr []"
    by code_simp
  have h2: "first_seen (filter (\<lambda>d. d \<noteq> [])
              (map (normalize extract_example) [''example.com'', ''www.example.com''])) =
            [''example.com'']"
    by code_simp
  show ?thesis
    using h1 h2
      normalizers_compared [of extract_example ipv6_reject "''user@example.com''"
        "''user@example.com''" "[''example.com'', ''www.example.com'']"]
    by (simp only: simp_thms)
qed

section \<open>generate_markdown_report\<close>

lemma index_of_member: "x \<in> set xs \<Longrightarrow> \<exists>i. index_of xs x = Inr i"
  by (induction xs) auto

lemma grade_on_scale_str: "g \<in> set grade_order \<Longrightarrow> \<exists>s. g = JStr s"
  by (auto simp: grade_order_def)

lemma count_grades_total:
  "list_all (\<lambda>d. row_get d ''grade'' (JStr ''Unknown'') \<in> set grade_order) rows \<Longrightarrow>
   \<exists>c. count_grades counts rows = Inr c"
proof (induction rows arbitrary: counts)
  case Nil
  then show ?case by simp
next
  case (Cons d rows)
  then obtain s where "row_get d ''grade'' (JStr ''Unknown'') = JStr s"
    using grade_on_scale_str by fastforce
  then show ?case using Cons by (simp add: Let_def)
qed

lemma service_keys_total:
  "list_all (\<lambda>d. row_get d ''grade'' (JStr ''Unknown'') \<in> set grade_order \<and>
                 (\<exists>s. row_get d ''name'' (JStr []) = JStr s)) rows \<Longrightarrow>
   \<exists>ks. service_keys rows = Inr ks \<and> list_all (\<lambda>k. \<exists>s. snd (fst k) = JStr s) ks"
proof (induction rows)
  case Nil
  then show ?case by simp
next
  case (Cons d rows)
  then obtain ks where ks: "service_keys rows = Inr ks" "list_all (\<lambda>k. \<exists>s. snd (fst k) = JStr s) ks"
    by auto
  obtain i where "index_of grade_order (row_get d ''grade'' (JStr ''Unknown'')) = Inr i"
    using Cons.prems index_of_member by fastforce
  then show ?case using ks Cons.prems by auto
qed

lemma string_keys_ordered:
  "snd a = JStr s \<Longrightarrow> snd b = JStr t \<Longrightarrow> \<not> unordered a b"
  by (simp add: unordered_def key_lt_def)

lemma no_unordered_pair:
  "list_all (\<lambda>k. \<exists>s. snd k = JStr s) ks \<Longrightarrow> \<not> has_unordered_pair ks"
proof (induction ks)
  case Nil
  then show ?case by simp
next
  case (Cons k ks)
  then show ?case
    by (auto simp: list_ex_iff list_all_iff dest: string_keys_ordered)
qed

text \<open>
  On a non-empty list whose grades are on the scale and whose names are strings the
  report is produced.
\<close>

lemma report_total_on_scale:
  assumes "rows \<noteq> []"
    and "list_all (\<lambda>d. row_get d ''grade'' (JStr ''Unknown'') \<in> set grade_order \<and>
                        (\<exists>s. row_get d ''name'' (JStr []) = JStr s)) rows"
  shows "\<exists>r. generate_markdown_report rows = Inr r \<and> total_services r = length rows"
proof -
  have g: "list_all (\<lambda>d. row_get d ''grade'' (JStr ''Unknown'') \<in> set grade_order) rows"
    using assms(2) by (simp add: list_all_iff)
  obtain c where c: "count_grades [] rows = Inr c"
    using count_grades_total [OF g] by blast
  obtain ks where ks: "service_keys rows = Inr ks" "list_all (\<lambda>k. \<exists>s. snd (fst k) = JStr s) ks"
    using service_keys_total [OF assms(2)] by blast
  have "list_all (\<lambda>k. \<exists>s. snd k = JStr s) (map fst ks)"
    using ks(2) by (simp add: list_all_iff)
  then have s: "sorted_keyed ks = Inr (foldr insert_keyed ks [])"
    using no_unordered_pair by (simp add: sorted_keyed_def)
  show ?thesis
    using assms(1) by (simp add: generate_markdown_report_def c ks(1) s py_div_def Let_def)
qed

text \<open>The sample data of \<open>reporting.py\<close> gives a report of three rows.\<close>

lemma report_of_sample:
  "\<exists>r. generate_markdown_report
       [[(''domain'', JStr ''google.com''), (''grade'', JStr ''E''),
         (''service_id'', JNum 217), (''name'', JStr ''Google'')],
        [(''domain'', JStr ''github.com''), (''grade'', JStr ''B''),
         (''service_id'', JNum 297), (''name'', JStr ''GitHub'')],
        [(''domain'', JStr ''example.com''), (''grade'', JStr ''Unknown''),
         (''service_id'', JNull), (''name'', JStr ''example.com'')]] = Inr r \<and>
     total_services r = 3 \<and> found_services r = 2 \<and>
     map (\<lambda>p. row_get (fst p) ''name'' JNull) (sorted_services r) =
       [JStr ''GitHub'', JStr ''Google'', JStr ''example.com'']"
  by (simp add: generate_markdown_report_def row_get_def py_div_def grade_order_def
      sorted_keyed_def unordered_def key_lt_def key_less_def status_of_def index_or_999_def
      count_of_def Let_def)

text \<open>
  Two rows of the same grade whose names are \<open>None\<close> and a string: the tuple keys cannot
  be compared and \<open>sorted\<close> raises \<open>TypeError\<close>.
\<close>

lemma report_raises_on_mixed_names:
  "generate_markdown_report
     [[(''grade'', JStr ''A''), (''name'', JNull)], [(''grade'', JStr ''A''), (''name'', JStr ''b'')]] =
   Inl TypeError"
  by (simp add: generate_markdown_report_def row_get_def py_div_def grade_order_def
      sorted_keyed_def unordered_def key_lt_def Let_def)

text \<open>
  Claim C10 says that \<open>generate_markdown_report\<close> divides by zero on the empty list and
  is total on every non-empty list. The first half holds: the percentages of the
  executive summary divide by the number of rows, and the empty list raises
  \<open>ZeroDivisionError\<close>. The source does not keep the second half: the sort key of the
  complete table looks the grade up with \<open>list.index\<close> and without the guard
  (\<open>if ... in ... else 999\<close>) that the two other sort keys have, so a single row whose
  grade is outside the scale raises \<open>ValueError\<close>.
\<close>

theorem report_raises_on_unknown_grade:
  "generate_markdown_report [] = Inl ZeroDivisionError \<and>
   generate_markdown_report
     [[(''domain'', JStr ''x.com''), (''grade'', JStr ''F''), (''service_id'', JNull),
       (''name'', JStr ''x'')]] = Inl ValueError"
  by (simp add: generate_markdown_report_def row_get_def py_div_def grade_order_def Let_def)

end
